theory Spec2Isabelle
  imports Complex_Main "HOL-Library.Product_Lexorder" "HOL-Library.Multiset"
begin

section \<open>Numeric layer\<close>

text \<open>
  The Python code computes on IEEE doubles held in pandas columns.  A column entry is
  modelled as \<open>real option\<close>: \<open>Some a\<close> is the finite number \<open>a\<close>, \<open>None\<close> is NaN
  (which is also what pandas uses for a missing entry).  Arithmetic is exact; rounding,
  overflow and the two infinities are outside the model, so \<open>np.isfinite\<close> and
  \<open>notna\<close> coincide.  Every operation propagates NaN as numpy does.
\<close>

type_synonym flt = "real option"

type_synonym ident = nat

definition isfinite :: "flt \<Rightarrow> bool" where
  "isfinite v \<longleftrightarrow> v \<noteq> None"

fun lift2 :: "(real \<Rightarrow> real \<Rightarrow> real) \<Rightarrow> flt \<Rightarrow> flt \<Rightarrow> flt" where
  "lift2 f (Some a) (Some b) = Some (f a b)"
| "lift2 f _ _ = None"

abbreviation fadd :: "flt \<Rightarrow> flt \<Rightarrow> flt" where "fadd \<equiv> lift2 (+)"
abbreviation fsub :: "flt \<Rightarrow> flt \<Rightarrow> flt" where "fsub \<equiv> lift2 (-)"
abbreviation fmul :: "flt \<Rightarrow> flt \<Rightarrow> flt" where "fmul \<equiv> lift2 (*)"
abbreviation fdiv :: "flt \<Rightarrow> flt \<Rightarrow> flt" where "fdiv \<equiv> lift2 (/)"

text \<open>Python's \<open>%\<close> on floats with a positive modulus: the result has the sign of the modulus.\<close>

definition pymod :: "real \<Rightarrow> real \<Rightarrow> real" where
  "pymod x m = x - m * of_int \<lfloor>x / m\<rfloor>"

definition hypot :: "real \<Rightarrow> real \<Rightarrow> real" where
  "hypot a b = sqrt (a\<^sup>2 + b\<^sup>2)"

text \<open>\<open>np.arctan2(y, x)\<close>, with signed zeros identified.\<close>

definition arctan2 :: "real \<Rightarrow> real \<Rightarrow> real" where
  "arctan2 y x =
     (if 0 < x then arctan (y / x)
      else if x < 0 then (if 0 \<le> y then arctan (y / x) + pi else arctan (y / x) - pi)
      else if 0 < y then pi / 2
      else if y < 0 then - (pi / 2)
      else 0)"

definition radians :: "real \<Rightarrow> real" where
  "radians d = d * pi / 180"

text \<open>\<open>fillna(d)\<close> on one entry.\<close>

definition fillna :: "real \<Rightarrow> flt \<Rightarrow> flt" where
  "fillna d v = (case v of None \<Rightarrow> Some d | Some a \<Rightarrow> Some a)"

text \<open>\<open>dropna().values\<close> of a column.\<close>

definition dropna :: "flt list \<Rightarrow> real list" where
  "dropna vs = List.map_filter (\<lambda>v. v) vs"

definition mean :: "real list \<Rightarrow> flt" where
  "mean vs = (if vs = [] then None else Some (sum_list vs / real (length vs)))"

definition nanmean :: "flt list \<Rightarrow> flt" where
  "nanmean s = mean (dropna s)"

definition nanstd :: "flt list \<Rightarrow> flt" where
  "nanstd s =
     (case nanmean s of
        None \<Rightarrow> None
      | Some m \<Rightarrow> map_option sqrt (mean (map (\<lambda>a. (a - m)\<^sup>2) (dropna s))))"

section \<open>config.py and the exceptions\<close>

text \<open>The fields of \<open>Config\<close> that the modelled functions read.\<close>

record Config =
  dt_minutes :: int
  K_available :: int
  neighbor_radius_m :: real
  cone_half_angle_deg :: real
  include_log_l2 :: bool
  seed :: nat

text \<open>The exceptions raised by the modelled code, with their messages.\<close>

datatype error = ValueError string | KeyError string

section \<open>design.py: standardisation\<close>

text \<open>
  \<open>_zscore\<close> on a numeric column (the early return for a non-numeric column is excluded
  by the column type).
\<close>

definition zscore :: "flt list \<Rightarrow> flt list" where
  "zscore s =
     (let m = nanmean s; sd = nanstd s
      in if \<not> isfinite sd \<or> sd = Some 0 then map (\<lambda>v. fsub v m) s
         else map (\<lambda>v. fdiv (fsub v m) sd) s)"

section \<open>regularize.py: kinematics\<close>

text \<open>
  Line 51: \<open>((heading - heading_prev + pi) % (2*pi)) - pi\<close>.
\<close>

definition turn_angle :: "flt \<Rightarrow> flt \<Rightarrow> flt" where
  "turn_angle h hp = map_option (\<lambda>d. pymod (d + pi) (2 * pi) - pi) (fsub h hp)"

section \<open>The regularized table\<close>

text \<open>
  One row of the table returned by \<open>regularize\<close>: the DataFrame index label, the
  individual (\<open>cfg.id_col\<close>), the grid timestamp in nanoseconds (\<open>cfg.time_col\<close>; \<open>None\<close> is
  NaT) and the numeric columns.
\<close>

record reg_row =
  idx :: nat
  r_id :: ident
  r_time :: "int option"
  lon :: flt
  lat :: flt
  lon_prev :: flt
  lat_prev :: flt
  step_len_m :: flt
  heading_rad :: flt
  heading_prev_rad :: flt
  turn_rad :: flt
  speed_mps :: flt
  x_m :: flt
  y_m :: flt
  x_prev :: flt
  y_prev :: flt

section \<open>regularize.py: the track regularizer\<close>

text \<open>
  A cleaned fix: individual, timestamp in nanoseconds since the epoch (the resolution of
  pandas), longitude and latitude in degrees.  \<open>None\<close> is a missing entry: \<open>regularize\<close>
  drops a row with any of them missing, or with a time that does not parse.
\<close>

record gps_fix =
  f_id :: "ident option"
  f_time :: "int option"
  f_lon :: flt
  f_lat :: flt

definition R_EARTH :: real where
  "R_EARTH = 6371000"

text \<open>\<open>np.sqrt\<close> and \<open>np.arcsin\<close> give NaN outside their domains.\<close>

definition haversine :: "flt \<Rightarrow> flt \<Rightarrow> flt \<Rightarrow> flt \<Rightarrow> flt" where
  "haversine lon1 lat1 lon2 lat2 =
     (case (lon1, lat1, lon2, lat2) of
        (Some o1, Some a1, Some o2, Some a2) \<Rightarrow>
          let dlon = radians o2 - radians o1;
              dlat = radians a2 - radians a1;
              a = (sin (dlat / 2))\<^sup>2 + cos (radians a1) * cos (radians a2) * (sin (dlon / 2))\<^sup>2
          in if 0 \<le> a \<and> a \<le> 1 then Some (2 * R_EARTH * arcsin (sqrt a)) else None
      | _ \<Rightarrow> None)"

definition bearing :: "flt \<Rightarrow> flt \<Rightarrow> flt \<Rightarrow> flt \<Rightarrow> flt" where
  "bearing lon1 lat1 lon2 lat2 =
     (case (lon1, lat1, lon2, lat2) of
        (Some o1, Some a1, Some o2, Some a2) \<Rightarrow>
          let dlon = radians o2 - radians o1;
              y = sin dlon * cos (radians a2);
              x = cos (radians a1) * cos (radians a2)
                  - sin (radians a1) * sin (radians a2) * cos dlon;
              ang = arctan2 y x
          in Some (pymod (ang + 2 * pi) (2 * pi))
      | _ \<Rightarrow> None)"

definition to_local_xy :: "flt \<Rightarrow> flt \<Rightarrow> flt \<Rightarrow> flt \<Rightarrow> flt \<times> flt" where
  "to_local_xy lo la lon0 lat0 =
     (fmul (fmul (Some R_EARTH) (fsub (map_option radians lo) (map_option radians lon0)))
           (map_option (\<lambda>c. cos (radians c)) lat0),
      fmul (Some R_EARTH) (fsub (map_option radians la) (map_option radians lat0)))"

text \<open>\<open>Series.median()\<close>: NaN for an empty column.\<close>

definition median :: "real list \<Rightarrow> flt" where
  "median vs =
     (let srt = sort vs; n = length srt
      in if n = 0 then None
         else if odd n then Some (srt ! (n div 2))
         else Some ((srt ! (n div 2 - 1) + srt ! (n div 2)) / 2))"

text \<open>
  \<open>interpolate(limit_direction="both")\<close> on a column: a gap between two defined entries
  is filled linearly by position, a gap before the first or after the last defined entry
  takes the nearest defined value, and a column with no defined entry stays undefined.
\<close>

definition valid_pts :: "flt list \<Rightarrow> (nat \<times> real) list" where
  "valid_pts xs = List.map_filter (\<lambda>(j, v). map_option (Pair j) v) (enumerate 0 xs)"

definition prev_valid :: "flt list \<Rightarrow> nat \<Rightarrow> (nat \<times> real) option" where
  "prev_valid xs i =
     (case filter (\<lambda>(j, _). j < i) (valid_pts xs) of [] \<Rightarrow> None | ps \<Rightarrow> Some (last ps))"

definition next_valid :: "flt list \<Rightarrow> nat \<Rightarrow> (nat \<times> real) option" where
  "next_valid xs i =
     (case filter (\<lambda>(j, _). i < j) (valid_pts xs) of [] \<Rightarrow> None | pt # _ \<Rightarrow> Some pt)"

definition interpolate_at :: "flt list \<Rightarrow> nat \<Rightarrow> flt" where
  "interpolate_at xs i =
     (case xs ! i of
        Some v \<Rightarrow> Some v
      | None \<Rightarrow>
          (case (prev_valid xs i, next_valid xs i) of
             (Some (p, a), Some (n, b)) \<Rightarrow> Some (a + (b - a) * real (i - p) / real (n - p))
           | (Some (p, a), None) \<Rightarrow> Some a
           | (None, Some (n, b)) \<Rightarrow> Some b
           | (None, None) \<Rightarrow> None))"

definition interpolate :: "flt list \<Rightarrow> flt list" where
  "interpolate xs = map (interpolate_at xs) [0..<length xs]"

text \<open>\<open>shift(1)\<close>.\<close>

definition shift1 :: "flt list \<Rightarrow> flt list" where
  "shift1 xs = (if xs = [] then [] else None # butlast xs)"

text \<open>
  \<open>resample(f"{dt}min")\<close> of one individual's fixes: bins of width \<open>freq\<close>, closed and
  labelled on the left, anchored at midnight of the day of the first fix, from the bin of
  the first fix to the bin of the last.  The result has one row per bin: its label and
  the means of the longitudes and latitudes that fall in it (NaN for an empty bin).
\<close>

definition day_ns :: int where
  "day_ns = 86400 * 10 ^ 9"

definition freq_ns :: "Config \<Rightarrow> int" where
  "freq_ns cfg = dt_minutes cfg * 60 * 10 ^ 9"

definition origin_of :: "int list \<Rightarrow> int" where
  "origin_of ts = (let first = fold min ts (hd ts) in first - first mod day_ns)"

definition slot_of :: "int \<Rightarrow> int \<Rightarrow> int \<Rightarrow> int" where
  "slot_of origin freq t = (t - origin) div freq"

definition n_bins :: "int \<Rightarrow> int list \<Rightarrow> nat" where
  "n_bins freq ts =
     (if ts = [] then 0
      else let origin = origin_of ts
           in nat (slot_of origin freq (fold max ts (hd ts))
                   - slot_of origin freq (fold min ts (hd ts)) + 1))"

definition grid_label :: "int \<Rightarrow> int list \<Rightarrow> nat \<Rightarrow> int" where
  "grid_label freq ts j =
     (let origin = origin_of ts;
          lo = slot_of origin freq (fold min ts (hd ts))
      in origin + (lo + int j) * freq)"

definition resample_mean :: "int \<Rightarrow> (int \<times> real \<times> real) list \<Rightarrow> (int \<times> flt \<times> flt) list" where
  "resample_mean freq s =
     (let ts = map fst s;
          origin = origin_of ts;
          lo = slot_of origin freq (fold min ts (hd ts))
      in map (\<lambda>j. let members = filter (\<lambda>(t, _, _). slot_of origin freq t = lo + int j) s
                   in (grid_label freq ts j,
                       mean (map (\<lambda>(_, l, _). l) members),
                       mean (map (\<lambda>(_, _, l). l) members)))
             [0..<n_bins freq ts])"

text \<open>
  Lines 38 to 58 for the individual \<open>sid\<close>: the grid rows with their kinematics.  The index
  label is assigned when the groups are concatenated.
\<close>

definition group_rows ::
  "Config \<Rightarrow> flt \<Rightarrow> flt \<Rightarrow> ident \<Rightarrow> (int \<times> real \<times> real) list \<Rightarrow> reg_row list" where
  "group_rows cfg lon0 lat0 sid s =
     (let grid = resample_mean (freq_ns cfg) s;
          lons = interpolate (map (\<lambda>(_, l, _). l) grid);
          lats = interpolate (map (\<lambda>(_, _, l). l) grid);
          lon_prevs = shift1 lons;
          lat_prevs = shift1 lats;
          step_lens = map (\<lambda>j. haversine (lon_prevs ! j) (lat_prevs ! j) (lons ! j) (lats ! j))
                        [0..<length grid];
          headings = map (\<lambda>j. bearing (lon_prevs ! j) (lat_prevs ! j) (lons ! j) (lats ! j))
                        [0..<length grid];
          heading_prevs = shift1 headings;
          xys = map (\<lambda>j. to_local_xy (lons ! j) (lats ! j) lon0 lat0) [0..<length grid];
          x_prevs = shift1 (map fst xys);
          y_prevs = shift1 (map snd xys)
      in map (\<lambda>j.
           \<lparr>idx = 0, r_id = sid, r_time = Some (fst (grid ! j)),
            lon = lons ! j, lat = lats ! j,
            lon_prev = lon_prevs ! j, lat_prev = lat_prevs ! j,
            step_len_m = step_lens ! j,
            heading_rad = headings ! j,
            heading_prev_rad = heading_prevs ! j,
            turn_rad = turn_angle (headings ! j) (heading_prevs ! j),
            speed_mps = fdiv (step_lens ! j) (Some (real_of_int (dt_minutes cfg) * 60)),
            x_m = fst (xys ! j), y_m = snd (xys ! j),
            x_prev = x_prevs ! j, y_prev = y_prevs ! j\<rparr>)
         [0..<length grid])"

text \<open>Line 30 to 32: the rows with all four entries present.\<close>

definition clean_fixes :: "gps_fix list \<Rightarrow> (ident \<times> int \<times> real \<times> real) list" where
  "clean_fixes df =
     List.map_filter
       (\<lambda>f. case (f_id f, f_time f, f_lon f, f_lat f) of
              (Some i, Some t, Some lo, Some la) \<Rightarrow> Some (i, t, lo, la)
            | _ \<Rightarrow> None)
       df"

text \<open>The fixes of one individual in time order, as the group of line 37 holds them.\<close>

definition track_of :: "(ident \<times> int \<times> real \<times> real) list \<Rightarrow> ident \<Rightarrow> (int \<times> real \<times> real) list" where
  "track_of g sid = sort_key fst (map snd (filter (\<lambda>(i, _). i = sid) g))"

text \<open>Line 83.\<close>

definition has_prev :: "reg_row \<Rightarrow> bool" where
  "has_prev r \<longleftrightarrow>
     lon_prev r \<noteq> None \<and> lat_prev r \<noteq> None \<and> step_len_m r \<noteq> None
     \<and> x_prev r \<noteq> None \<and> y_prev r \<noteq> None"

text \<open>
  \<open>regularize\<close>, without the columns carried for \<open>sex\<close> and for passthrough covariates
  (\<open>Config\<close> declares none): both are left merges that add columns to the rows.  With no
  usable fix at all \<open>pd.concat\<close> raises on the empty list; a grid interval that is not
  positive is refused by \<open>resample\<close>.
\<close>

definition regularize :: "gps_fix list \<Rightarrow> Config \<Rightarrow> error + reg_row list" where
  "regularize df cfg =
     (let g = clean_fixes df;
          lon0 = median (map (\<lambda>(_, _, lo, _). lo) g);
          lat0 = median (map (\<lambda>(_, _, _, la). la) g);
          sids = sort (remdups (map fst g))
      in if g = [] then Inl (ValueError ''No objects to concatenate'')
         else if dt_minutes cfg \<le> 0 then Inl (ValueError ''Invalid frequency'')
         else
           let out = map (\<lambda>sid. group_rows cfg lon0 lat0 sid (track_of g sid)) sids;
               reg = map2 (\<lambda>i r. r\<lparr>idx := i\<rparr>) [0..<length (concat out)] (concat out)
           in Inr (filter has_prev reg))"

section \<open>covariates/social.py: the time-indexed neighbour engine\<close>

record nb_point =
  p_x :: flt
  p_y :: flt
  p_id :: ident
  p_heading :: flt
  p_speed :: flt

text \<open>
  \<open>time_to_arr\<close> is the dictionary from timestamp to the parallel arrays of that
  timestamp, held as one list of points.  \<open>time_to_tree\<close> is written by \<open>build\<close> and never
  read by \<open>query_social\<close>, so it is not part of the state here.
\<close>

record TimeNeighborIndex =
  self_radius_m :: real
  self_cone_half_angle_deg :: real
  time_to_arr :: "int \<rightharpoonup> nb_point list"

definition init_index :: "real \<Rightarrow> real \<Rightarrow> TimeNeighborIndex" where
  "init_index radius cone =
     \<lparr>self_radius_m = radius, self_cone_half_angle_deg = cone, time_to_arr = Map.empty\<rparr>"

definition point_of :: "reg_row \<Rightarrow> nb_point" where
  "point_of r = \<lparr>p_x = x_m r, p_y = y_m r, p_id = r_id r,
                 p_heading = heading_rad r, p_speed = speed_mps r\<rparr>"

text \<open>\<open>reg.groupby(time_col)\<close>: one group per timestamp that occurs; NaT rows are in no group.\<close>

definition groupby_time :: "reg_row list \<Rightarrow> (int \<rightharpoonup> reg_row list)" where
  "groupby_time reg =
     (\<lambda>t. let g = filter (\<lambda>r. r_time r = Some t) reg in if g = [] then None else Some g)"

definition build :: "TimeNeighborIndex \<Rightarrow> reg_row list \<Rightarrow> TimeNeighborIndex" where
  "build self reg =
     self\<lparr>time_to_arr := time_to_arr self ++ (map_option (map point_of) \<circ> groupby_time reg)\<rparr>"

record SocialCovariates =
  nn_dist :: flt
  n_forward :: flt
  n_behind :: flt
  ahead_any :: flt
  behind_any :: flt
  mean_align_fwd :: flt
  rel_speed_fwd :: flt

definition no_neighbors :: SocialCovariates where
  "no_neighbors =
     \<lparr>nn_dist = None, n_forward = Some 0, n_behind = Some 0, ahead_any = Some 0,
      behind_any = Some 0, mean_align_fwd = None, rel_speed_fwd = None\<rparr>"

text \<open>A point that survived the mask of line 37: offsets and distance are finite.\<close>

record neighbor =
  nb_dx :: real
  nb_dy :: real
  nb_dist :: real
  heading_nb :: flt
  speed_nb :: flt

definition masked :: "nb_point list \<Rightarrow> flt \<Rightarrow> flt \<Rightarrow> ident \<Rightarrow> neighbor list" where
  "masked arr x_e y_e focal_id =
     List.map_filter
       (\<lambda>p. case (fsub (p_x p) x_e, fsub (p_y p) y_e) of
              (Some dx, Some dy) \<Rightarrow>
                if p_id p \<noteq> focal_id
                then Some \<lparr>nb_dx = dx, nb_dy = dy, nb_dist = hypot dx dy,
                           heading_nb = p_heading p, speed_nb = p_speed p\<rparr>
                else None
            | _ \<Rightarrow> None)
       arr"

text \<open>\<open>((a + pi) % (2*pi)) - pi\<close>, used at lines 54 and 65.\<close>

definition wrap_pi :: "real \<Rightarrow> real" where
  "wrap_pi a = pymod (a + pi) (2 * pi) - pi"

definition proj :: "flt \<Rightarrow> neighbor \<Rightarrow> flt" where
  "proj step_heading n =
     fadd (fmul (Some (nb_dx n)) (map_option sin step_heading))
          (fmul (Some (nb_dy n)) (map_option cos step_heading))"

definition ang_diff :: "flt \<Rightarrow> neighbor \<Rightarrow> flt" where
  "ang_diff step_heading n =
     map_option (\<lambda>h. \<bar>wrap_pi (arctan2 (nb_dx n) (nb_dy n) - h)\<bar>) step_heading"

definition forward :: "flt \<Rightarrow> real \<Rightarrow> neighbor \<Rightarrow> bool" where
  "forward step_heading half n \<longleftrightarrow>
     (case (proj step_heading n, ang_diff step_heading n) of
        (Some pr, Some ad) \<Rightarrow> 0 < pr \<and> ad \<le> half
      | _ \<Rightarrow> False)"

definition behind :: "flt \<Rightarrow> real \<Rightarrow> neighbor \<Rightarrow> bool" where
  "behind step_heading half n \<longleftrightarrow>
     (case (proj step_heading n, ang_diff step_heading n) of
        (Some pr, Some ad) \<Rightarrow> pr < 0 \<and> ad \<le> half
      | _ \<Rightarrow> False)"

definition query_social ::
  "TimeNeighborIndex \<Rightarrow> int option \<Rightarrow> flt \<Rightarrow> flt \<Rightarrow> flt \<Rightarrow> ident \<Rightarrow> SocialCovariates" where
  "query_social self time x_e y_e step_heading focal_id =
     (case Option.bind time (time_to_arr self) of
        None \<Rightarrow> no_neighbors
      | Some arr \<Rightarrow>
          let in_r = filter (\<lambda>n. nb_dist n \<le> self_radius_m self)
                       (masked arr x_e y_e focal_id)
          in if in_r = [] then no_neighbors
             else
               let half = radians (self_cone_half_angle_deg self);
                   fwd = filter (forward step_heading half) in_r;
                   bhd = filter (behind step_heading half) in_r;
                   n_fwd = real (length fwd);
                   n_bhd = real (length bhd)
               in \<lparr>nn_dist = (if in_r = [] then None else Some (min_list (map nb_dist in_r))),
                   n_forward = Some n_fwd,
                   n_behind = Some n_bhd,
                   ahead_any = Some (if 0 < n_fwd then 1 else 0),
                   behind_any = Some (if 0 < n_bhd then 1 else 0),
                   mean_align_fwd =
                     (if 0 < n_fwd
                      then nanmean (map (\<lambda>n. map_option (\<lambda>d. cos (wrap_pi d))
                                                 (fsub (heading_nb n) step_heading)) fwd)
                      else None),
                   rel_speed_fwd =
                     (if 0 < n_fwd
                      then nanmean (map (\<lambda>n. fsub (speed_nb n) (Some 0)) fwd)
                      else None)\<rparr>)"

section \<open>The design table\<close>

text \<open>
  A row as \<open>AvailableSampler.sample\<close> emits it (\<open>cand_row\<close>), and a row of the table built
  by \<open>build_used_available\<close> (\<open>design_row\<close>).  The column \<open>log_l2\<close> exists only when
  \<open>cfg.include_log_l2\<close> is set: \<open>None\<close> is the absent column.
\<close>

record cand_row =
  stratum_id :: nat
  d_id :: ident
  d_time :: "int option"
  x_end :: flt
  y_end :: flt
  heading_step :: flt
  is_used :: nat

record design_row = cand_row +
  log_l :: flt
  cos_turn :: flt
  log_l2 :: "flt option"

text \<open>The same row once \<open>add_social\<close> has added the seven social columns.\<close>

record social_row = design_row +
  social :: SocialCovariates

section \<open>design.py: the design assembler\<close>

text \<open>Lines 61 to 73: one query per design row, at the row's own time, endpoint and heading.\<close>

definition attach_social :: "TimeNeighborIndex \<Rightarrow> design_row list \<Rightarrow> social_row list" where
  "attach_social ni design =
     map (\<lambda>r. design_row.extend r
                 (social_row.fields
                    (query_social ni (d_time r) (x_end r) (y_end r) (heading_step r) (d_id r))))
         design"

text \<open>
  Lines 87 to 106, on the social columns of one row: counts and indicators, then the
  nearest-neighbour distance (the masked assignment of line 99, then the \<open>fillna\<close> of line
  101), then alignment and relative speed.
\<close>

definition fill_social :: "real \<Rightarrow> SocialCovariates \<Rightarrow> SocialCovariates" where
  "fill_social radius s =
     (let s1 = s\<lparr>ahead_any := fillna 0 (ahead_any s), behind_any := fillna 0 (behind_any s),
                 n_forward := fillna 0 (n_forward s), n_behind := fillna 0 (n_behind s)\<rparr>;
          no_neighbors_mask =
            (fadd (fadd (fadd (fillna 0 (ahead_any s1)) (fillna 0 (behind_any s1)))
                        (fillna 0 (n_forward s1))) (fillna 0 (n_behind s1)) = Some 0);
          nn1 = (if no_neighbors_mask \<and> nn_dist s1 = None then Some radius else nn_dist s1)
      in s1\<lparr>nn_dist := fillna radius nn1,
             mean_align_fwd := fillna 0 (mean_align_fwd s1),
             rel_speed_fwd := fillna 0 (rel_speed_fwd s1)\<rparr>)"

definition fill_pass :: "Config \<Rightarrow> social_row list \<Rightarrow> social_row list" where
  "fill_pass cfg design =
     map (\<lambda>r. r\<lparr>social := fill_social (neighbor_radius_m cfg) (social r)\<rparr>) design"

text \<open>Lines 108 to 114: every row of a stratum that has a row with a non-finite \<open>cos_turn\<close> goes.\<close>

definition drop_bad_strata :: "social_row list \<Rightarrow> social_row list" where
  "drop_bad_strata design =
     (let bad_strata = map stratum_id (filter (\<lambda>r. \<not> isfinite (cos_turn r)) design)
      in filter (\<lambda>r. stratum_id r \<notin> set bad_strata) design)"

text \<open>Lines 116 to 123: each listed column is replaced by its z-score over the whole table.\<close>

definition standardize_col ::
  "(social_row \<Rightarrow> flt) \<Rightarrow> (flt \<Rightarrow> social_row \<Rightarrow> social_row) \<Rightarrow> social_row list \<Rightarrow> social_row list" where
  "standardize_col get put design = map2 put (zscore (map get design)) design"

definition standardize :: "social_row list \<Rightarrow> social_row list" where
  "standardize design =
     (standardize_col (rel_speed_fwd \<circ> social) (\<lambda>v r. r\<lparr>social := (social r)\<lparr>rel_speed_fwd := v\<rparr>\<rparr>)
      \<circ> standardize_col (mean_align_fwd \<circ> social) (\<lambda>v r. r\<lparr>social := (social r)\<lparr>mean_align_fwd := v\<rparr>\<rparr>)
      \<circ> standardize_col (n_behind \<circ> social) (\<lambda>v r. r\<lparr>social := (social r)\<lparr>n_behind := v\<rparr>\<rparr>)
      \<circ> standardize_col (n_forward \<circ> social) (\<lambda>v r. r\<lparr>social := (social r)\<lparr>n_forward := v\<rparr>\<rparr>)
      \<circ> standardize_col (nn_dist \<circ> social) (\<lambda>v r. r\<lparr>social := (social r)\<lparr>nn_dist := v\<rparr>\<rparr>)
      \<circ> standardize_col cos_turn (\<lambda>v r. r\<lparr>cos_turn := v\<rparr>)
      \<circ> (\<lambda>d. if \<forall>r \<in> set d. log_l2 r \<noteq> None
               then standardize_col (\<lambda>r. case log_l2 r of Some v \<Rightarrow> v | None \<Rightarrow> None)
                      (\<lambda>v r. r\<lparr>log_l2 := Some v\<rparr>) d
               else d)
      \<circ> standardize_col log_l (\<lambda>v r. r\<lparr>log_l := v\<rparr>)) design"

text \<open>
  \<open>add_social\<close> without the \<open>sex_M\<close> column (lines 75 to 85), which no other stage reads,
  and with no passthrough covariates, as \<open>Config\<close> declares none.
\<close>

definition add_social :: "design_row list \<Rightarrow> reg_row list \<Rightarrow> Config \<Rightarrow> social_row list" where
  "add_social design reg cfg =
     (let ni = build (init_index (neighbor_radius_m cfg) (cone_half_angle_deg cfg)) reg
      in standardize (drop_bad_strata (fill_pass cfg (attach_social ni design))))"

section \<open>steps.py: used and available steps\<close>

text \<open>
  The generator \<open>np.random.default_rng(seed)\<close> is a parameter: a stream of naturals, read
  from a position that every draw advances.  \<open>rng.choice(pool, size=k, replace=True)\<close>
  takes the next \<open>k\<close> numbers of the stream as indices into the pool.
\<close>

definition rng_choice :: "(nat \<Rightarrow> nat) \<Rightarrow> real list \<Rightarrow> nat \<Rightarrow> nat \<Rightarrow> real list \<times> nat" where
  "rng_choice gen pool k st =
     (map (\<lambda>j. pool ! (gen (st + j) mod length pool)) [0..<k], st + k)"

text \<open>\<open>np.log\<close>; at 0 numpy gives minus infinity, which the model has no value for.\<close>

definition flog :: "flt \<Rightarrow> flt" where
  "flog v = (case v of None \<Rightarrow> None | Some a \<Rightarrow> if 0 < a then Some (ln a) else None)"

text \<open>Lines 20 to 36: the available rows of one source row, from its drawn lengths and turns.\<close>

definition avail_rows :: "reg_row \<Rightarrow> real list \<Rightarrow> real list \<Rightarrow> cand_row list" where
  "avail_rows r lengths turns =
     (let h0 = (if isfinite (heading_prev_rad r) then heading_prev_rad r else heading_rad r)
      in map (\<lambda>(l, t).
                let heading = map_option (\<lambda>h. pymod (h + t + 2 * pi) (2 * pi)) h0;
                    dx = fmul (Some l) (map_option sin heading);
                    dy = fmul (Some l) (map_option cos heading)
                in \<lparr>stratum_id = idx r, d_id = r_id r, d_time = r_time r,
                    x_end = fadd (x_prev r) dx, y_end = fadd (y_prev r) dy,
                    heading_step = heading, is_used = 0\<rparr>)
             (zip lengths turns))"

fun sample_loop ::
  "int \<Rightarrow> (nat \<Rightarrow> nat) \<Rightarrow> real list \<Rightarrow> real list \<Rightarrow> reg_row list \<Rightarrow> nat \<Rightarrow> error + cand_row list" where
  "sample_loop K gen pool_len pool_turn [] st = Inr []"
| "sample_loop K gen pool_len pool_turn (r # rs) st =
     (if \<not> isfinite (heading_rad r) then sample_loop K gen pool_len pool_turn rs st
      else if K < 0 then Inl (ValueError ''negative dimensions are not allowed'')
      else
        let (lengths, st1) = rng_choice gen pool_len (nat K) st;
            (turns, st2) = rng_choice gen pool_turn (nat K) st1
        in case sample_loop K gen pool_len pool_turn rs st2 of
             Inl e \<Rightarrow> Inl e
           | Inr rows \<Rightarrow> Inr (avail_rows r lengths turns @ rows))"

definition sample :: "int \<Rightarrow> (nat \<Rightarrow> nat) \<Rightarrow> reg_row list \<Rightarrow> error + cand_row list" where
  "sample K gen steps =
     (let pool_len = dropna (map step_len_m steps);
          pool_turn = dropna (map turn_rad steps)
      in if length pool_len = 0 \<or> length pool_turn = 0
         then Inl (ValueError ''Not enough steps to sample available steps.'')
         else sample_loop K gen pool_len pool_turn steps 0)"

definition used_row :: "Config \<Rightarrow> reg_row \<Rightarrow> design_row" where
  "used_row cfg r =
     (let ll = flog (fadd (step_len_m r) (Some (1 / 10 ^ 9)))
      in \<lparr>stratum_id = idx r, d_id = r_id r, d_time = r_time r,
          x_end = x_m r, y_end = y_m r, heading_step = heading_rad r, is_used = 1,
          log_l = ll, cos_turn = map_option cos (turn_rad r),
          log_l2 = (if include_log_l2 cfg then Some (fmul ll ll) else None)\<rparr>)"

text \<open>Lines 63 to 68: an available row gets its columns from its origin row.\<close>

definition complete_avail :: "Config \<Rightarrow> cand_row \<Rightarrow> reg_row \<Rightarrow> design_row" where
  "complete_avail cfg a orig =
     (let dx = fsub (x_end a) (x_prev orig);
          dy = fsub (y_end a) (y_prev orig);
          ll = flog (fadd (lift2 hypot dx dy) (Some (1 / 10 ^ 9)))
      in cand_row.extend a
           (design_row.fields ll (Some 1)
              (if include_log_l2 cfg then Some (fmul ll ll) else None)))"

text \<open>
  \<open>build_used_available\<close>.  The stratum id of a row is its index label.  An empty table
  of available rows has no column \<open>x_end\<close>, so line 63 raises; \<open>steps.loc\<close> returns every
  row that carries a requested label, so a label that is not unique among the source rows
  makes the arrays of line 63 differ in length.
\<close>

definition build_used_available ::
  "(nat \<Rightarrow> nat \<Rightarrow> nat) \<Rightarrow> reg_row list \<Rightarrow> Config \<Rightarrow> error + design_row list" where
  "build_used_available default_rng reg cfg =
     (let steps = reg;
          used = map (used_row cfg) steps
      in case sample (K_available cfg) (default_rng (seed cfg)) steps of
           Inl e \<Rightarrow> Inl e
         | Inr avail \<Rightarrow>
             if avail = [] then Inl (KeyError ''x_end'')
             else
               let origins = concat (map (\<lambda>a. filter (\<lambda>s. idx s = stratum_id a) steps) avail)
               in if length origins \<noteq> length avail
                  then Inl (ValueError ''operands could not be broadcast together'')
                  else Inr (used @ map2 (complete_avail cfg) avail origins))"

section \<open>validate.py: temporal cross-validation\<close>

text \<open>
  A design row as \<open>kfold_time_cv\<close> reads it: individual, time, stratum, the used flag and the
  values of the columns named by \<open>cols\<close>.
\<close>

record cv_row =
  cv_id :: ident
  cv_time :: "int option"
  cv_stratum_id :: nat
  cv_is_used :: nat
  cv_X :: "real list"

text \<open>\<open>sort_values(["id", "time"])\<close>: stable, NaT last within an individual.\<close>

definition time_of :: "cv_row \<Rightarrow> int" where
  "time_of r = (case cv_time r of None \<Rightarrow> 0 | Some t \<Rightarrow> t)"

definition cv_key :: "cv_row \<Rightarrow> ident \<times> bool \<times> int" where
  "cv_key r = (cv_id r, (cv_time r = None, time_of r))"

definition sort_id_time :: "cv_row list \<Rightarrow> cv_row list" where
  "sort_id_time design = sort_key cv_key design"

text \<open>
  \<open>groupby("id")["time"].rank(method="first")\<close> for the row at position \<open>p\<close>: one more than
  the number of rows of the same individual with an earlier time, or with the same time and
  an earlier position; NaN for NaT.
\<close>

definition t_rank :: "cv_row list \<Rightarrow> nat \<Rightarrow> nat option" where
  "t_rank d p =
     (case cv_time (d ! p) of
        None \<Rightarrow> None
      | Some t \<Rightarrow>
          Some (1 + length (filter
            (\<lambda>q. cv_id (d ! q) = cv_id (d ! p) \<and>
                 (case cv_time (d ! q) of None \<Rightarrow> False
                  | Some t' \<Rightarrow> t' < t \<or> (t' = t \<and> q < p)))
            [0..<length d])))"

text \<open>
  Lines 15 to 18.  \<open>astype(int)\<close> raises on NaN, which is what a NaT rank and a modulus of
  zero both give.
\<close>

definition fold_labels :: "nat \<Rightarrow> cv_row list \<Rightarrow> error + (cv_row \<times> nat) list" where
  "fold_labels k design =
     (let d = sort_id_time design;
          ranks = map (t_rank d) [0..<length d]
      in if d \<noteq> [] \<and> (k = 0 \<or> None \<in> set ranks)
         then Inl (ValueError ''Cannot convert non-finite values (NA or inf) to integer'')
         else Inr (zip d (map (\<lambda>rk. case rk of None \<Rightarrow> 0 | Some n \<Rightarrow> n mod k) ranks)))"















section \<open>Fixtures\<close>

text \<open>A regularized row at planar position \<open>(x, y)\<close>, heading north at one metre per second.\<close>

definition ex_reg_row :: "nat \<Rightarrow> ident \<Rightarrow> int \<Rightarrow> real \<Rightarrow> real \<Rightarrow> reg_row" where
  "ex_reg_row i sid t x y =
     \<lparr>idx = i, r_id = sid, r_time = Some t, lon = Some 0, lat = Some 0,
      lon_prev = Some 0, lat_prev = Some 0, step_len_m = Some 600, heading_rad = Some 0,
      heading_prev_rad = Some 0, turn_rad = Some 0, speed_mps = Some 1,
      x_m = Some x, y_m = Some y, x_prev = Some x, y_prev = Some (y - 600)\<rparr>"

text \<open>A design row with endpoint \<open>(x, y)\<close> and heading north.\<close>

definition ex_design_row :: "nat \<Rightarrow> ident \<Rightarrow> int \<Rightarrow> real \<Rightarrow> real \<Rightarrow> nat \<Rightarrow> design_row" where
  "ex_design_row s sid t x y u =
     \<lparr>stratum_id = s, d_id = sid, d_time = Some t, x_end = Some x, y_end = Some y,
      heading_step = Some 0, is_used = u, log_l = Some 0, cos_turn = Some 1, log_l2 = None\<rparr>"

definition all_nan :: SocialCovariates where
  "all_nan =
     \<lparr>nn_dist = None, n_forward = None, n_behind = None, ahead_any = None,
      behind_any = None, mean_align_fwd = None, rel_speed_fwd = None\<rparr>"

definition ex_cfg :: Config where
  "ex_cfg = \<lparr>dt_minutes = 10, K_available = 2, neighbor_radius_m = 50,
             cone_half_angle_deg = 90, include_log_l2 = False, seed = 42\<rparr>"


definition ex_rng :: "nat \<Rightarrow> nat \<Rightarrow> nat" where
  "ex_rng sd j = 0"

text \<open>A cross-validation row of individual \<open>i\<close> at time \<open>t\<close> in stratum \<open>s\<close>.\<close>

definition cvr :: "ident \<Rightarrow> int \<Rightarrow> nat \<Rightarrow> nat \<Rightarrow> cv_row" where
  "cvr i t s u = \<lparr>cv_id = i, cv_time = Some t, cv_stratum_id = s, cv_is_used = u, cv_X = [0]\<rparr>"



text \<open>Rows of two individuals, out of order.\<close>

definition ex_cv2 :: "cv_row list" where
  "ex_cv2 = [cvr 2 5 3 1, cvr 1 30 2 1, cvr 1 10 0 1, cvr 1 20 1 1]"

text \<open>An individual with two fixes, ten minutes apart, and one with both fixes in one bin.\<close>

definition ex_fix :: "ident \<Rightarrow> int \<Rightarrow> gps_fix" where
  "ex_fix i t = \<lparr>f_id = Some i, f_time = Some t, f_lon = Some 0, f_lat = Some 0\<rparr>"

definition ex_fixes :: "gps_fix list" where
  "ex_fixes = [ex_fix 1 0, ex_fix 1 600000000000, ex_fix 2 0, ex_fix 2 60000000000]"

section \<open>Properties of the numeric layer\<close>

lemma set_map_filter: "set (List.map_filter f xs) = {y. \<exists>x \<in> set xs. f x = Some y}"
  by (induction xs) (auto split: option.splits)



section \<open>The turn angle\<close>




section \<open>Standardisation\<close>



section \<open>The neighbour engine\<close>

lemma build_at:
  "time_to_arr (build self reg) t =
     (if filter (\<lambda>r. r_time r = Some t) reg = [] then time_to_arr self t
      else Some (map point_of (filter (\<lambda>r. r_time r = Some t) reg)))"
  by (simp add: build_def groupby_time_def map_add_def Let_def)

lemma build_params:
  "self_radius_m (build self reg) = self_radius_m self"
  "self_cone_half_angle_deg (build self reg) = self_cone_half_angle_deg self"
  by (simp_all add: build_def)

lemma query_social_NaT: "query_social ni None x_e y_e h fid = no_neighbors"
  by (simp add: query_social_def)

text \<open>
  Claim C1.  A query at timestamp \<open>t\<close> reads only the rows of the regularized table whose
  timestamp is \<open>t\<close>: two tables with the same rows at \<open>t\<close>, whatever their rows at other
  timestamps, give indexes that answer every query at \<open>t\<close> alike.
\<close>

theorem query_social_time_exact:
  assumes "filter (\<lambda>r. r_time r = Some t) reg1 = filter (\<lambda>r. r_time r = Some t) reg2"
  shows "query_social (build self reg1) (Some t) x_e y_e h fid
       = query_social (build self reg2) (Some t) x_e y_e h fid"
  by (simp add: query_social_def build_at build_params assms Let_def
           cong: option.case_cong if_cong)

theorem query_social_time_exact_witness:
  "filter (\<lambda>r. r_time r = Some 0) [ex_reg_row 0 1 0 0 10, ex_reg_row 1 1 600 0 20]
     = filter (\<lambda>r. r_time r = Some 0) [ex_reg_row 0 1 0 0 10, ex_reg_row 1 1 600 300 (-40)]
   \<and> query_social (build (init_index 50 90) [ex_reg_row 0 1 0 0 10, ex_reg_row 1 1 600 0 20])
        (Some 0) (Some 0) (Some 0) (Some 0) 2
     = query_social (build (init_index 50 90) [ex_reg_row 0 1 0 0 10, ex_reg_row 1 1 600 300 (-40)])
        (Some 0) (Some 0) (Some 0) (Some 0) 2"
proof -
  have h: "filter (\<lambda>r. r_time r = Some 0) [ex_reg_row 0 1 0 0 10, ex_reg_row 1 1 600 0 20]
     = filter (\<lambda>r. r_time r = Some 0) [ex_reg_row 0 1 0 0 10, ex_reg_row 1 1 600 300 (-40)]"
    by (simp add: ex_reg_row_def)
  show ?thesis
    using h query_social_time_exact [OF h, of "init_index 50 90" "Some 0" "Some 0" "Some 0" 2]
    by simp
qed

section \<open>The missing-value pass\<close>

lemma fill_social_fields:
  "n_forward (fill_social R s) = fillna 0 (n_forward s)"
  "n_behind (fill_social R s) = fillna 0 (n_behind s)"
  "ahead_any (fill_social R s) = fillna 0 (ahead_any s)"
  "behind_any (fill_social R s) = fillna 0 (behind_any s)"
  "nn_dist (fill_social R s) = fillna R (nn_dist s)"
  "mean_align_fwd (fill_social R s) = fillna 0 (mean_align_fwd s)"
  "rel_speed_fwd (fill_social R s) = fillna 0 (rel_speed_fwd s)"
  by (simp_all add: fill_social_def Let_def fillna_def split: option.splits)

text \<open>
  Claim C7.  After the fill pass of \<open>add_social\<close>, in every design row a count or presence
  indicator that was undefined is 0, a nearest-neighbour distance that was undefined is the
  configured radius, and an undefined mean alignment or relative speed is 0.
\<close>

theorem fill_pass_defaults:
  assumes "i < length design"
  shows "let s = social (design ! i); s' = social (fill_pass cfg design ! i) in
     (n_forward s = None \<longrightarrow> n_forward s' = Some 0) \<and>
     (n_behind s = None \<longrightarrow> n_behind s' = Some 0) \<and>
     (ahead_any s = None \<longrightarrow> ahead_any s' = Some 0) \<and>
     (behind_any s = None \<longrightarrow> behind_any s' = Some 0) \<and>
     (nn_dist s = None \<longrightarrow> nn_dist s' = Some (neighbor_radius_m cfg)) \<and>
     (mean_align_fwd s = None \<longrightarrow> mean_align_fwd s' = Some 0) \<and>
     (rel_speed_fwd s = None \<longrightarrow> rel_speed_fwd s' = Some 0)"
  using assms by (simp add: fill_pass_def fill_social_fields fillna_def Let_def)

theorem fill_pass_defaults_witness:
  "(0::nat) < length [design_row.extend (ex_design_row 0 1 0 0 0 1) (social_row.fields all_nan)]
   \<and> social (fill_pass ex_cfg
        [design_row.extend (ex_design_row 0 1 0 0 0 1) (social_row.fields all_nan)] ! 0)
     = \<lparr>nn_dist = Some 50, n_forward = Some 0, n_behind = Some 0, ahead_any = Some 0,
        behind_any = Some 0, mean_align_fwd = Some 0, rel_speed_fwd = Some 0\<rparr>"
proof -
  have h: "(0::nat) < length [design_row.extend (ex_design_row 0 1 0 0 0 1) (social_row.fields all_nan)]"
    by simp
  show ?thesis
    using h fill_pass_defaults [OF h, of ex_cfg]
    by (simp add: Let_def all_nan_def ex_cfg_def design_row.defs social_row.defs)
qed

section \<open>The radius test at its boundary\<close>

lemma masked_mem:
  assumes "p \<in> set arr" "p_id p \<noteq> fid" "p_x p = Some px" "p_y p = Some py"
  shows "\<lparr>nb_dx = px - xe, nb_dy = py - ye, nb_dist = hypot (px - xe) (py - ye),
           heading_nb = p_heading p, speed_nb = p_speed p\<rparr>
         \<in> set (masked arr (Some xe) (Some ye) fid)"
  using assms by (force simp: masked_def set_map_filter)

lemma masked_dist:
  assumes "n \<in> set (masked arr (Some xe) (Some ye) fid)"
  shows "\<exists>p \<in> set arr. p_id p \<noteq> fid \<and>
           (\<exists>px py. p_x p = Some px \<and> p_y p = Some py \<and> nb_dist n = hypot (px - xe) (py - ye))"
proof -
  from assms obtain p where p: "p \<in> set arr"
    and c: "(case (fsub (p_x p) (Some xe), fsub (p_y p) (Some ye)) of
              (Some dx, Some dy) \<Rightarrow>
                if p_id p \<noteq> fid
                then Some \<lparr>nb_dx = dx, nb_dy = dy, nb_dist = hypot dx dy,
                           heading_nb = p_heading p, speed_nb = p_speed p\<rparr>
                else None
            | _ \<Rightarrow> None) = Some n"
    by (auto simp: masked_def set_map_filter)
  from c have "p_id p \<noteq> fid \<and>
      (\<exists>px py. p_x p = Some px \<and> p_y p = Some py \<and> nb_dist n = hypot (px - xe) (py - ye))"
    by (cases "p_x p"; cases "p_y p") (auto split: if_splits)
  with p show ?thesis by blast
qed

text \<open>
  Claim C10.  The radius test is inclusive.  A conspecific present at the query timestamp
  whose planar distance to the endpoint is exactly the radius counts as a neighbour: the
  point is in the within-radius set from which the query computes its answer.  The
  nearest-neighbour distance returned is the minimum distance over that set, so it is defined
  and at most the radius; the forward and behind counts are the numbers of points of that
  set in the forward and in the backward cone, so a boundary point in the forward cone makes
  the forward count at least 1 and \<open>ahead_any\<close> equal to 1 (likewise behind).  When no other
  conspecific is nearer, the distance returned is the radius itself, which is also what the
  fill pass writes for the record of a query that found no neighbour.
\<close>

theorem radius_inclusive:
  assumes arr: "time_to_arr ni t = Some arr"
    and p: "p \<in> set arr" "p_id p \<noteq> fid" "p_x p = Some px" "p_y p = Some py"
    and at_radius: "hypot (px - xe) (py - ye) = self_radius_m ni"
  shows "let R = self_radius_m ni;
             nb = \<lparr>nb_dx = px - xe, nb_dy = py - ye, nb_dist = hypot (px - xe) (py - ye),
                   heading_nb = p_heading p, speed_nb = p_speed p\<rparr>;
             in_r = filter (\<lambda>n. nb_dist n \<le> R) (masked arr (Some xe) (Some ye) fid);
             half = radians (self_cone_half_angle_deg ni);
             q = query_social ni (Some t) (Some xe) (Some ye) h fid
         in nb \<in> set in_r
          \<and> nn_dist q = Some (Min (nb_dist ` set in_r))
          \<and> (\<exists>d. nn_dist q = Some d \<and> d \<le> R)
          \<and> n_forward q = Some (real (length (filter (forward h half) in_r)))
          \<and> n_behind q = Some (real (length (filter (behind h half) in_r)))
          \<and> (forward h half nb \<longrightarrow> ahead_any q = Some 1 \<and> (\<exists>c. n_forward q = Some c \<and> 1 \<le> c))
          \<and> (behind h half nb \<longrightarrow> behind_any q = Some 1 \<and> (\<exists>c. n_behind q = Some c \<and> 1 \<le> c))
          \<and> ((\<forall>q \<in> set arr. \<forall>qx qy. p_id q \<noteq> fid \<and> p_x q = Some qx \<and> p_y q = Some qy
                  \<longrightarrow> R \<le> hypot (qx - xe) (qy - ye)) \<longrightarrow>
                nn_dist q = Some R
                \<and> nn_dist (fill_social R q) = nn_dist (fill_social R no_neighbors))"
proof -
  let ?R = "self_radius_m ni"
  let ?M = "masked arr (Some xe) (Some ye) fid"
  let ?in_r = "filter (\<lambda>n. nb_dist n \<le> ?R) ?M"
  let ?half = "radians (self_cone_half_angle_deg ni)"
  let ?q = "query_social ni (Some t) (Some xe) (Some ye) h fid"
  let ?nb = "\<lparr>nb_dx = px - xe, nb_dy = py - ye, nb_dist = hypot (px - xe) (py - ye),
             heading_nb = p_heading p, speed_nb = p_speed p\<rparr>"
  have mem: "?nb \<in> set ?in_r"
    using masked_mem [OF p, of xe ye] at_radius by simp
  hence ne: "?in_r \<noteq> []" by (metis empty_iff empty_set)
  have q1: "nn_dist ?q = Some (Min (nb_dist ` set ?in_r))"
    using arr ne by (simp add: query_social_def Let_def min_list_Min)
  have q2: "n_forward ?q = Some (real (length (filter (forward h ?half) ?in_r)))"
    using arr ne by (simp add: query_social_def Let_def)
  have q3: "n_behind ?q = Some (real (length (filter (behind h ?half) ?in_r)))"
    using arr ne by (simp add: query_social_def Let_def)
  have q4: "ahead_any ?q = Some (if 0 < length (filter (forward h ?half) ?in_r) then 1 else 0)"
    using arr ne by (simp add: query_social_def Let_def)
  have q5: "behind_any ?q = Some (if 0 < length (filter (behind h ?half) ?in_r) then 1 else 0)"
    using arr ne by (simp add: query_social_def Let_def)
  have fin: "finite (nb_dist ` set ?in_r)" by simp
  have nonempty: "nb_dist ` set ?in_r \<noteq> {}" by (metis ne image_is_empty set_empty)
  have "Min (nb_dist ` set ?in_r) \<in> nb_dist ` set ?in_r"
    using fin nonempty by (rule Min_in)
  hence le: "Min (nb_dist ` set ?in_r) \<le> ?R" by auto
  have fwd: "0 < length (filter (forward h ?half) ?in_r)" if "forward h ?half ?nb"
  proof -
    from mem that have "?nb \<in> set (filter (forward h ?half) ?in_r)" by simp
    thus ?thesis by (metis empty_iff empty_set length_greater_0_conv)
  qed
  have bhd: "0 < length (filter (behind h ?half) ?in_r)" if "behind h ?half ?nb"
  proof -
    from mem that have "?nb \<in> set (filter (behind h ?half) ?in_r)" by simp
    thus ?thesis by (metis empty_iff empty_set length_greater_0_conv)
  qed
  have eq: "Min (nb_dist ` set ?in_r) = ?R"
    if far: "\<forall>q \<in> set arr. \<forall>qx qy. p_id q \<noteq> fid \<and> p_x q = Some qx \<and> p_y q = Some qy
              \<longrightarrow> ?R \<le> hypot (qx - xe) (qy - ye)"
  proof (rule antisym [OF le])
    have "?R \<le> d" if "d \<in> nb_dist ` set ?in_r" for d
    proof -
      from that obtain n where n: "n \<in> set ?M" and d: "d = nb_dist n" by auto
      from masked_dist [OF n] far d show ?thesis by auto
    qed
    thus "?R \<le> Min (nb_dist ` set ?in_r)"
      using fin nonempty by simp
  qed
  have A: "\<exists>d. nn_dist ?q = Some d \<and> d \<le> ?R" using q1 le by simp
  have pos: "1 \<le> real n" if "0 < n" for n :: nat using that by simp
  have F: "forward h ?half ?nb \<longrightarrow> ahead_any ?q = Some 1 \<and> (\<exists>c. n_forward ?q = Some c \<and> 1 \<le> c)"
  proof
    assume "forward h ?half ?nb"
    from fwd [OF this] have l: "0 < length (filter (forward h ?half) ?in_r)" .
    have "ahead_any ?q = Some 1" unfolding q4 using l by (simp only: if_True)
    moreover have "\<exists>c. n_forward ?q = Some c \<and> 1 \<le> c"
      unfolding q2 using pos [OF l] by blast
    ultimately show "ahead_any ?q = Some 1 \<and> (\<exists>c. n_forward ?q = Some c \<and> 1 \<le> c)" ..
  qed
  have B: "behind h ?half ?nb \<longrightarrow> behind_any ?q = Some 1 \<and> (\<exists>c. n_behind ?q = Some c \<and> 1 \<le> c)"
  proof
    assume "behind h ?half ?nb"
    from bhd [OF this] have l: "0 < length (filter (behind h ?half) ?in_r)" .
    have "behind_any ?q = Some 1" unfolding q5 using l by (simp only: if_True)
    moreover have "\<exists>c. n_behind ?q = Some c \<and> 1 \<le> c"
      unfolding q3 using pos [OF l] by blast
    ultimately show "behind_any ?q = Some 1 \<and> (\<exists>c. n_behind ?q = Some c \<and> 1 \<le> c)" ..
  qed
  have C: "(\<forall>q \<in> set arr. \<forall>qx qy. p_id q \<noteq> fid \<and> p_x q = Some qx \<and> p_y q = Some qy
                  \<longrightarrow> ?R \<le> hypot (qx - xe) (qy - ye)) \<longrightarrow>
                nn_dist ?q = Some ?R
                \<and> nn_dist (fill_social ?R ?q) = nn_dist (fill_social ?R no_neighbors)"
    using q1 eq by (simp add: fill_social_fields fillna_def no_neighbors_def)
  from mem q1 A q2 q3 F B C show ?thesis
    unfolding Let_def by (intro conjI)
qed

theorem radius_inclusive_witness:
  "nn_dist (query_social (build (init_index 1 90) [ex_reg_row 0 1 0 0 1]) (Some 0)
             (Some 0) (Some 0) (Some 0) 2) = Some 1
   \<and> n_forward (query_social (build (init_index 1 90) [ex_reg_row 0 1 0 0 1]) (Some 0)
             (Some 0) (Some 0) (Some 0) 2) = Some 1
   \<and> ahead_any (query_social (build (init_index 1 90) [ex_reg_row 0 1 0 0 1]) (Some 0)
             (Some 0) (Some 0) (Some 0) 2) = Some 1
   \<and> nn_dist (fill_social 1 (query_social (build (init_index 1 90) [ex_reg_row 0 1 0 0 1])
                 (Some 0) (Some 0) (Some 0) (Some 0) 2)) = nn_dist (fill_social 1 no_neighbors)"
proof -
  let ?ni = "build (init_index 1 90) [ex_reg_row 0 1 0 0 1]"
  let ?p = "point_of (ex_reg_row 0 1 0 0 1)"
  let ?nb = "\<lparr>nb_dx = 0 - 0, nb_dy = 1 - 0, nb_dist = hypot (0 - 0) (1 - 0),
             heading_nb = p_heading ?p, speed_nb = p_speed ?p\<rparr>"
  have arr: "time_to_arr ?ni 0 = Some [?p]"
    by (simp add: build_at ex_reg_row_def)
  have p: "?p \<in> set [?p]" "p_id ?p \<noteq> 2" "p_x ?p = Some 0" "p_y ?p = Some 1"
    by (simp_all add: point_of_def ex_reg_row_def)
  have R: "self_radius_m ?ni = 1" and cone: "self_cone_half_angle_deg ?ni = 90"
    by (simp_all add: build_params init_index_def)
  have r: "hypot (0 - 0) (1 - 0) = self_radius_m ?ni"
    by (simp add: hypot_def build_params init_index_def)
  have far: "\<forall>q \<in> set [?p]. \<forall>qx qy. p_id q \<noteq> 2 \<and> p_x q = Some qx \<and> p_y q = Some qy
              \<longrightarrow> self_radius_m ?ni \<le> hypot (qx - 0) (qy - 0)"
    by (simp add: point_of_def ex_reg_row_def hypot_def build_params init_index_def)
  have fl: "\<lfloor>pi / (2 * pi)\<rfloor> = 0" by simp
  have fw: "forward (Some 0) (radians (self_cone_half_angle_deg ?ni)) ?nb"
    by (simp add: build_params init_index_def forward_def proj_def ang_diff_def wrap_pi_def
          pymod_def arctan2_def radians_def fl)
  have in_r: "filter (\<lambda>n. nb_dist n \<le> self_radius_m ?ni) (masked [?p] (Some 0) (Some 0) 2) = [?nb]"
    by (simp add: build_params init_index_def masked_def point_of_def ex_reg_row_def hypot_def)
  have len: "length (filter (forward (Some 0) (radians (self_cone_half_angle_deg ?ni))) [?nb]) = 1"
    using fw by simp
  note T = radius_inclusive [OF arr p r, of "Some 0", unfolded Let_def]
  note T4 = T [THEN conjunct2, THEN conjunct2, THEN conjunct2, THEN conjunct1]
  note T6 = T [THEN conjunct2, THEN conjunct2, THEN conjunct2, THEN conjunct2, THEN conjunct2,
               THEN conjunct1]
  note T8 = T [THEN conjunct2, THEN conjunct2, THEN conjunct2, THEN conjunct2, THEN conjunct2,
               THEN conjunct2, THEN conjunct2]
  from T4 have nf: "n_forward (query_social ?ni (Some 0) (Some 0) (Some 0) (Some 0) 2) = Some 1"
    unfolding in_r len by simp
  from T6 fw have aa: "ahead_any (query_social ?ni (Some 0) (Some 0) (Some 0) (Some 0) 2) = Some 1"
    by (rule mp [THEN conjunct1])
  from T8 far have nn: "nn_dist (query_social ?ni (Some 0) (Some 0) (Some 0) (Some 0) 2)
        = Some (self_radius_m ?ni)
      \<and> nn_dist (fill_social (self_radius_m ?ni)
                  (query_social ?ni (Some 0) (Some 0) (Some 0) (Some 0) 2))
        = nn_dist (fill_social (self_radius_m ?ni) no_neighbors)"
    by (rule mp)
  from nn nf aa show ?thesis unfolding R by simp
qed

section \<open>The used/available build\<close>

text \<open>
  Claim C4.  When the pooled step lengths or the pooled turn angles of the whole input are
  empty, \<open>build_used_available\<close> fails: the sampler raises its \<open>ValueError\<close>
  ("Not enough steps to sample available steps.").
\<close>

theorem pools_empty_fails:
  assumes "dropna (map step_len_m reg) = [] \<or> dropna (map turn_rad reg) = []"
  shows "build_used_available default_rng reg cfg
         = Inl (ValueError ''Not enough steps to sample available steps.'')"
  using assms by (auto simp: build_used_available_def sample_def Let_def)

theorem pools_empty_fails_witness:
  "dropna (map turn_rad [(ex_reg_row 0 1 0 0 0)\<lparr>turn_rad := None\<rparr>]) = []
   \<and> build_used_available ex_rng [(ex_reg_row 0 1 0 0 0)\<lparr>turn_rad := None\<rparr>] ex_cfg
     = Inl (ValueError ''Not enough steps to sample available steps.'')"
proof -
  have h: "dropna (map turn_rad [(ex_reg_row 0 1 0 0 0)\<lparr>turn_rad := None\<rparr>]) = []"
    by (simp add: dropna_def)
  show ?thesis
    using h pools_empty_fails [of "[(ex_reg_row 0 1 0 0 0)\<lparr>turn_rad := None\<rparr>]" ex_rng ex_cfg]
    by simp
qed
















section \<open>Fold assignment\<close>

lemma sorted_sort_id_time: "sorted (map cv_key (sort_id_time design))"
  by (simp add: sort_id_time_def)

lemma cv_key_le:
  assumes "cv_key a \<le> cv_key b" "cv_id a = cv_id b" "cv_time a = Some ta" "cv_time b = Some tb"
  shows "ta \<le> tb"
  using assms by (simp add: cv_key_def time_of_def)

lemma count_positions:
  "p \<le> length d \<Longrightarrow>
   length (filter (\<lambda>q. q < p \<and> P (d ! q)) [0..<length d]) = length (filter P (take p d))"
proof -
  assume p: "p \<le> length d"
  have "[0..<length d] = [0..<p] @ [p..<length d]"
    using p by (metis le0 upt_add_eq_append le_add_diff_inverse)
  hence "filter (\<lambda>q. q < p \<and> P (d ! q)) [0..<length d] = filter (\<lambda>q. P (d ! q)) [0..<p]"
    by (auto simp: filter_empty_conv intro: filter_cong)
  moreover have "map ((!) d) [0..<p] = take p d"
  proof -
    have "take p d = take p (map ((!) d) [0..<length d])" by (simp only: map_nth)
    also have "\<dots> = map ((!) d) (take p [0..<length d])" by (simp only: take_map)
    also have "take p [0..<length d] = [0..<p]" using p by simp
    finally show ?thesis by simp
  qed
  moreover have "length (filter (\<lambda>q. P (d ! q)) [0..<p]) = length (filter P (map ((!) d) [0..<p]))"
    by (simp add: filter_map comp_def)
  ultimately show ?thesis by simp
qed


lemma t_rank_sorted:
  assumes srt: "sorted (map cv_key d)" and p: "p < length d"
    and def: "\<forall>r \<in> set d. cv_time r \<noteq> None"
  shows "t_rank d p = Some (1 + length (filter (\<lambda>r. cv_id r = cv_id (d ! p)) (take p d)))"
proof -
  from def p obtain t where t: "cv_time (d ! p) = Some t" by (metis nth_mem not_None_eq)
  have key: "cv_key (d ! a) \<le> cv_key (d ! b)" if "a \<le> b" "b < length d" for a b
    using sorted_nth_mono [OF srt, of a b] that by simp
  have iff: "(cv_id (d ! q) = cv_id (d ! p) \<and>
              (case cv_time (d ! q) of None \<Rightarrow> False | Some t' \<Rightarrow> t' < t \<or> (t' = t \<and> q < p)))
             \<longleftrightarrow> (q < p \<and> cv_id (d ! q) = cv_id (d ! p))"
    if q: "q < length d" for q
  proof -
    from def q obtain t' where t': "cv_time (d ! q) = Some t'" by (metis nth_mem not_None_eq)
    show ?thesis
    proof (cases "cv_id (d ! q) = cv_id (d ! p)")
      case False
      then show ?thesis by simp
    next
      case True
      show ?thesis
      proof (cases "q < p")
        case lt: True
        from key [of q p] lt p have "cv_key (d ! q) \<le> cv_key (d ! p)" by simp
        from cv_key_le [OF this True t' t] have "t' \<le> t" .
        with lt True t' show ?thesis by auto
      next
        case ge: False
        from key [of p q] ge q have "cv_key (d ! p) \<le> cv_key (d ! q)" by simp
        from cv_key_le [OF this True [symmetric] t t'] have "t \<le> t'" .
        with ge True t' show ?thesis by auto
      qed
    qed
  qed
  have "filter (\<lambda>q. cv_id (d ! q) = cv_id (d ! p) \<and>
              (case cv_time (d ! q) of None \<Rightarrow> False | Some t' \<Rightarrow> t' < t \<or> (t' = t \<and> q < p)))
          [0..<length d]
        = filter (\<lambda>q. q < p \<and> cv_id (d ! q) = cv_id (d ! p)) [0..<length d]"
    by (rule filter_cong) (simp_all add: iff)
  moreover have "length (filter (\<lambda>q. q < p \<and> cv_id (d ! q) = cv_id (d ! p)) [0..<length d])
        = length (filter (\<lambda>r. cv_id r = cv_id (d ! p)) (take p d))"
    using count_positions [of p d "\<lambda>r. cv_id r = cv_id (d ! p)"] p by simp
  ultimately show ?thesis by (simp add: t_rank_def t)
qed

lemma labels_by_position:
  "map snd (filter (\<lambda>(r, f). cv_id r = i)
     (map (\<lambda>p. (d ! p, g (length (filter (\<lambda>r. cv_id r = cv_id (d ! p)) (take p d))))) [0..<length d]))
   = map g [0..<length (filter (\<lambda>r. cv_id r = i) d)]"
proof (induction d rule: rev_induct)
  case Nil
  then show ?case by simp
next
  case (snoc x xs)
  have eq: "map (\<lambda>p. ((xs @ [x]) ! p,
               g (length (filter (\<lambda>r. cv_id r = cv_id ((xs @ [x]) ! p)) (take p (xs @ [x]))))))
             [0..<length xs]
          = map (\<lambda>p. (xs ! p, g (length (filter (\<lambda>r. cv_id r = cv_id (xs ! p)) (take p xs)))))
             [0..<length xs]"
    by (rule map_cong) (simp_all add: nth_append)
  have split: "[0..<length (xs @ [x])] = [0..<length xs] @ [length xs]" by simp
  show ?case
    apply (subst split)
    apply (subst map_append)
    apply (subst eq)
    using snoc.IH by simp
qed


lemma zip_upt_map: "zip d (map h [0..<length d]) = map (\<lambda>p. (d ! p, h p)) [0..<length d]"
  by (rule nth_equalityI) simp_all

lemma fst_filter_zip:
  "length d = length fs \<Longrightarrow> map fst (filter (\<lambda>(r, f). P r) (zip d fs)) = filter P d"
  by (induction d fs rule: list_induct2) simp_all

lemma fold_labels_Inr:
  assumes "fold_labels k design = Inr lab"
  shows "lab = map (\<lambda>p. (sort_id_time design ! p,
                 (case t_rank (sort_id_time design) p of None \<Rightarrow> 0 | Some n \<Rightarrow> n mod k)))
               [0..<length design]"
    and "design \<noteq> [] \<longrightarrow> 0 < k \<and> (\<forall>r \<in> set (sort_id_time design). cv_time r \<noteq> None)"
proof -
  let ?d = "sort_id_time design"
  have len: "length ?d = length design" by (simp add: sort_id_time_def)
  from assms have lab: "lab = zip ?d (map (\<lambda>rk. case rk of None \<Rightarrow> 0 | Some n \<Rightarrow> n mod k)
                                (map (t_rank ?d) [0..<length ?d]))"
    and c: "\<not> (?d \<noteq> [] \<and> (k = 0 \<or> None \<in> set (map (t_rank ?d) [0..<length ?d])))"
    by (auto simp: fold_labels_def Let_def split: if_splits)
  from lab show "lab = map (\<lambda>p. (?d ! p, (case t_rank ?d p of None \<Rightarrow> 0 | Some n \<Rightarrow> n mod k)))
               [0..<length design]"
    using zip_upt_map [of ?d "\<lambda>p. case t_rank ?d p of None \<Rightarrow> 0 | Some n \<Rightarrow> n mod k"]
    by (simp add: len comp_def)
  show "design \<noteq> [] \<longrightarrow> 0 < k \<and> (\<forall>r \<in> set ?d. cv_time r \<noteq> None)"
  proof
    assume "design \<noteq> []"
    hence ne: "?d \<noteq> []" using len by (metis length_0_conv)
    with c have k: "0 < k" and nn: "None \<notin> set (map (t_rank ?d) [0..<length ?d])" by auto
    have "cv_time r \<noteq> None" if "r \<in> set ?d" for r
    proof
      assume n: "cv_time r = None"
      from that obtain p where p: "p < length ?d" "?d ! p = r" by (auto simp: in_set_conv_nth)
      hence "t_rank ?d p = None" using n by (simp add: t_rank_def)
      with p(1) nn show False by (metis (no_types, lifting) atLeastLessThan_iff image_eqI set_map set_upt zero_le)
    qed
    with k show "0 < k \<and> (\<forall>r \<in> set ?d. cv_time r \<noteq> None)" by blast
  qed
qed


lemma residues_covered:
  assumes "0 < k" "k \<le> n" "f < k"
  shows "f \<in> set (map (\<lambda>j. Suc j mod k) [0..<n])"
proof (cases f)
  case 0
  have "k - 1 < n" using assms by simp
  moreover have "Suc (k - 1) mod k = f" using assms 0 by simp
  ultimately show ?thesis by (metis (no_types, lifting) atLeastLessThan_iff image_eqI set_map set_upt zero_le)
next
  case (Suc j)
  have "j < n" using assms Suc by simp
  moreover have "Suc j mod k = f" using assms Suc by simp
  ultimately show ?thesis by (metis (no_types, lifting) atLeastLessThan_iff image_eqI set_map set_upt zero_le)
qed

text \<open>
  Claim C3, as the code has it.  When the fold labels are computed (a positive fold count
  and no missing time, or an empty table), every row gets one label below \<open>k\<close>.  Taken in
  the order of the sorted table, the rows of one individual are in time order, and the row
  of time-rank \<open>j\<close> (counted from 1) has fold \<open>j mod k\<close>; so an individual with at least \<open>k\<close>
  rows has a row in each of the \<open>k\<close> folds.  The folds are the residue classes of the
  time-rank: they interleave in time instead of forming contiguous blocks.
\<close>

theorem fold_labels_rank_mod:
  assumes ok: "fold_labels k design = Inr lab"
  shows "mset (map fst lab) = mset design
       \<and> (design \<noteq> [] \<longrightarrow> 0 < k)
       \<and> (\<forall>(r, f) \<in> set lab. f < k \<and> cv_time r \<noteq> None)
       \<and> (\<forall>i. let g = filter (\<lambda>(r, f). cv_id r = i) lab in
              sorted (map (time_of \<circ> fst) g)
            \<and> map snd g = map (\<lambda>j. Suc j mod k) [0..<length g]
            \<and> (k \<le> length g \<longrightarrow> (\<forall>f < k. f \<in> set (map snd g))))"
proof -
  let ?d = "sort_id_time design"
  let ?F = "\<lambda>p. case t_rank ?d p of None \<Rightarrow> 0 | Some n \<Rightarrow> n mod k"
  let ?c = "\<lambda>p. length (filter (\<lambda>r. cv_id r = cv_id (?d ! p)) (take p ?d))"
  have len: "length ?d = length design" by (simp add: sort_id_time_def)
  note lab = fold_labels_Inr(1) [OF ok]
  note pre = fold_labels_Inr(2) [OF ok]
  have srt: "sorted (map cv_key ?d)" by (rule sorted_sort_id_time)
  have def: "\<forall>r \<in> set ?d. cv_time r \<noteq> None"
  proof (cases "design = []")
    case True
    then show ?thesis by (simp add: sort_id_time_def)
  next
    case False
    with pre show ?thesis by simp
  qed
  have F: "?F p = Suc (?c p) mod k" if "p < length design" for p
    using t_rank_sorted [OF srt _ def, of p] that len by simp
  have lab': "lab = map (\<lambda>p. (?d ! p, Suc (?c p) mod k)) [0..<length design]"
    unfolding lab by (rule map_cong) (simp_all add: F)
  have fst: "map fst lab = ?d"
    unfolding lab' using len by (simp add: comp_def map_nth [of ?d, unfolded len])
  have A: "mset (map fst lab) = mset design"
    unfolding fst by (simp add: sort_id_time_def)
  have B: "design \<noteq> [] \<longrightarrow> 0 < k" using pre by simp
  have C: "\<forall>(r, f) \<in> set lab. f < k \<and> cv_time r \<noteq> None"
  proof (cases "design = []")
    case True
    then show ?thesis by (simp add: lab')
  next
    case False
    with pre have k: "0 < k" by simp
    show ?thesis
      unfolding lab' using k def len by (auto simp: set_conv_nth)
  qed
  have D: "let g = filter (\<lambda>(r, f). cv_id r = i) lab in
              sorted (map (time_of \<circ> fst) g)
            \<and> map snd g = map (\<lambda>j. Suc j mod k) [0..<length g]
            \<and> (k \<le> length g \<longrightarrow> (\<forall>f < k. f \<in> set (map snd g)))" for i
  proof -
    let ?g = "filter (\<lambda>(r, f). cv_id r = i) lab"
    have "lab = zip (map fst lab) (map snd lab)" by (simp add: zip_map_fst_snd)
    hence "map fst ?g = filter (\<lambda>r. cv_id r = i) (map fst lab)"
      using fst_filter_zip [of "map fst lab" "map snd lab" "\<lambda>r. cv_id r = i"] by simp
    hence gf: "map fst ?g = filter (\<lambda>r. cv_id r = i) ?d" by (simp only: fst)
    have "sorted (map cv_key (filter (\<lambda>r. cv_id r = i) ?d))"
      using srt by (rule sorted_filter)
    hence "sorted_wrt (\<lambda>a b. cv_key a \<le> cv_key b) (filter (\<lambda>r. cv_id r = i) ?d)"
      by (simp only: sorted_map)
    hence "sorted_wrt (\<lambda>a b. time_of a \<le> time_of b) (filter (\<lambda>r. cv_id r = i) ?d)"
    proof (rule sorted_wrt_mono_rel [rotated])
      fix a b
      assume a: "a \<in> set (filter (\<lambda>r. cv_id r = i) ?d)"
        and b: "b \<in> set (filter (\<lambda>r. cv_id r = i) ?d)"
        and le: "cv_key a \<le> cv_key b"
      from a b have ab: "a \<in> set ?d" "b \<in> set ?d" "cv_id a = cv_id b" by simp_all
      from ab(1) def obtain ta where ta: "cv_time a = Some ta" by blast
      from ab(2) def obtain tb where tb: "cv_time b = Some tb" by blast
      from cv_key_le [OF le ab(3) ta tb] ta tb show "time_of a \<le> time_of b"
        by (simp add: time_of_def)
    qed
    hence "sorted (map time_of (map fst ?g))" by (simp only: gf sorted_map)
    hence s1: "sorted (map (time_of \<circ> fst) ?g)" by simp
    have "map snd ?g = map (\<lambda>j. Suc j mod k) [0..<length (filter (\<lambda>r. cv_id r = i) ?d)]"
      unfolding lab' using labels_by_position [of i ?d "\<lambda>c. Suc c mod k"] len by simp
    moreover have "length (filter (\<lambda>r. cv_id r = i) ?d) = length ?g"
      using gf by (metis length_map)
    ultimately have s2: "map snd ?g = map (\<lambda>j. Suc j mod k) [0..<length ?g]" by simp
    have s3: "f \<in> set (map snd ?g)" if "k \<le> length ?g" "f < k" for f
    proof -
      from that have "0 < k" by simp
      from residues_covered [OF this that] show ?thesis by (simp only: s2 [symmetric])
    qed
    from s1 s2 s3 show ?thesis unfolding Let_def by blast
  qed
  from A B C D show ?thesis by blast
qed


theorem fold_labels_rank_mod_witness:
  "fold_labels 2 ex_cv2 = Inr [(cvr 1 10 0 1, 1), (cvr 1 20 1 1, 0), (cvr 1 30 2 1, 1), (cvr 2 5 3 1, 1)]
   \<and> ex_cv2 \<noteq> [] \<and> (0::nat) < 2
   \<and> (let g = filter (\<lambda>(r, f). cv_id r = 1)
                [(cvr 1 10 0 1, 1), (cvr 1 20 1 1, 0), (cvr 1 30 2 1, 1), (cvr 2 5 3 1, 1::nat)]
      in sorted (map (time_of \<circ> fst) g)
         \<and> map snd g = map (\<lambda>j. Suc j mod 2) [0..<length g]
         \<and> 2 \<le> length g \<and> 0 \<in> set (map snd g) \<and> 1 \<in> set (map snd g))"
proof -
  let ?L = "[(cvr 1 10 0 1, 1), (cvr 1 20 1 1, 0), (cvr 1 30 2 1, 1), (cvr 2 5 3 1, 1::nat)]"
  have h: "fold_labels 2 ex_cv2 = Inr ?L" by code_simp
  have ne: "ex_cv2 \<noteq> []" by (simp add: ex_cv2_def)
  have len: "2 \<le> length (filter (\<lambda>(r, f). cv_id r = 1) ?L)" by (simp add: cvr_def)
  from fold_labels_rank_mod [OF h] have
    "let g = filter (\<lambda>(r, f). cv_id r = 1) ?L in
         sorted (map (time_of \<circ> fst) g)
       \<and> map snd g = map (\<lambda>j. Suc j mod 2) [0..<length g]
       \<and> (2 \<le> length g \<longrightarrow> (\<forall>f < 2. f \<in> set (map snd g)))"
    by blast
  with len have "let g = filter (\<lambda>(r, f). cv_id r = 1) ?L in
         sorted (map (time_of \<circ> fst) g)
       \<and> map snd g = map (\<lambda>j. Suc j mod 2) [0..<length g]
       \<and> 2 \<le> length g \<and> 0 \<in> set (map snd g) \<and> 1 \<in> set (map snd g)"
    unfolding Let_def by (metis zero_less_numeral one_less_numeral_iff semiring_norm(76))
  with h ne show ?thesis by simp
qed

theorem fold_labels_interleaved_counterexample:
  "fold_labels 2 [cvr 1 10 0 1, cvr 1 20 1 1, cvr 1 30 2 1]
   = Inr [(cvr 1 10 0 1, 1), (cvr 1 20 1 1, 0), (cvr 1 30 2 1, 1)]"
  by code_simp


section \<open>A fold that fails to fit\<close>








section \<open>The track regularizer\<close>

lemma abs_prod_le: "\<bar>a * b\<bar> \<le> (a\<^sup>2 + b\<^sup>2) / 2" for a b :: real
proof -
  have "0 \<le> (\<bar>a\<bar> - \<bar>b\<bar>)\<^sup>2" by simp
  hence "2 * (\<bar>a\<bar> * \<bar>b\<bar>) \<le> a\<^sup>2 + b\<^sup>2"
    by (simp add: power2_diff)
  thus ?thesis by (simp add: abs_mult)
qed

lemma haversine_arg_range:
  fixes p1 p2 dlon :: real
  defines "a \<equiv> (sin ((p2 - p1) / 2))\<^sup>2 + cos p1 * cos p2 * (sin (dlon / 2))\<^sup>2"
  shows "0 \<le> a \<and> a \<le> 1"
proof -
  have half: "(sin (w / 2))\<^sup>2 = (1 - cos w) / 2" for w :: real
  proof -
    have "cos (2 * (w / 2)) = 1 - 2 * (sin (w / 2))\<^sup>2" by (rule cos_double_sin)
    moreover have "2 * (w / 2) = w" by simp
    ultimately have "cos w = 1 - 2 * (sin (w / 2))\<^sup>2" by (simp only:)
    thus ?thesis by (simp add: field_simps)
  qed
  have h1: "(sin ((p2 - p1) / 2))\<^sup>2 = (1 - cos (p2 - p1)) / 2" by (rule half)
  have h2: "(sin (dlon / 2))\<^sup>2 = (1 - cos dlon) / 2" by (rule half)
  have cd: "cos (p2 - p1) = cos p1 * cos p2 + sin p1 * sin p2"
    by (simp add: cos_diff mult.commute)
  define S where "S = sin p1 * sin p2"
  define C where "C = cos p1 * cos p2"
  have a: "a = (1 - (S + C * cos dlon)) / 2"
    unfolding a_def h1 h2 cd S_def C_def by (simp add: field_simps)
  define s1 s2 where "s1 = (sin p1)\<^sup>2" and "s2 = (sin p2)\<^sup>2"
  have "\<bar>S\<bar> \<le> (s1 + s2) / 2" unfolding S_def s1_def s2_def by (rule abs_prod_le)
  moreover have "\<bar>C\<bar> \<le> ((1 - s1) + (1 - s2)) / 2"
    using abs_prod_le [of "cos p1" "cos p2"] unfolding C_def s1_def s2_def
    by (simp add: cos_squared_eq)
  ultimately have SC: "\<bar>S\<bar> + \<bar>C\<bar> \<le> 1" by argo
  have "\<bar>C * cos dlon\<bar> \<le> \<bar>C\<bar>"
    by (simp add: abs_mult mult_left_le)
  with SC have "\<bar>S + C * cos dlon\<bar> \<le> 1" by argo
  thus ?thesis unfolding a by (simp add: abs_le_iff) 
qed

lemma haversine_defined:
  "haversine (Some o1) (Some a1) (Some o2) (Some a2) \<noteq> None"
  using haversine_arg_range [of "radians a2" "radians a1" "radians o2 - radians o1"]
  by (simp add: haversine_def Let_def)

lemma valid_pts_iff: "(j, a) \<in> set (valid_pts xs) \<longleftrightarrow> j < length xs \<and> xs ! j = Some a"
proof
  assume "(j, a) \<in> set (valid_pts xs)"
  then obtain k v where "(k, v) \<in> set (enumerate 0 xs)" "map_option (Pair k) v = Some (j, a)"
    by (auto simp: valid_pts_def set_map_filter)
  thus "j < length xs \<and> xs ! j = Some a"
    by (cases v) (auto simp: in_set_enumerate_eq)
next
  assume "j < length xs \<and> xs ! j = Some a"
  hence "(j, Some a) \<in> set (enumerate 0 xs)" by (simp add: in_set_enumerate_eq)
  moreover have "(case (j, Some a) of (j, v) \<Rightarrow> map_option (Pair j) v) = Some (j, a)" by simp
  ultimately show "(j, a) \<in> set (valid_pts xs)"
    unfolding valid_pts_def set_map_filter by blast
qed

lemma interpolate_at_defined:
  assumes "j < length xs" "xs ! j = Some a"
  shows "interpolate_at xs i \<noteq> None"
proof (cases "xs ! i")
  case (Some v)
  then show ?thesis by (simp add: interpolate_at_def)
next
  case None
  with assms have "j \<noteq> i" by auto
  from assms have mem: "(j, a) \<in> set (valid_pts xs)" by (simp add: valid_pts_iff)
  show ?thesis
  proof (cases "j < i")
    case True
    with mem have "(j, a) \<in> set (filter (\<lambda>(j, _). j < i) (valid_pts xs))" by simp
    hence "filter (\<lambda>(j, _). j < i) (valid_pts xs) \<noteq> []" by (metis empty_iff empty_set)
    hence "prev_valid xs i \<noteq> None"
      by (cases "filter (\<lambda>(j, _). j < i) (valid_pts xs)") (simp_all add: prev_valid_def)
    then obtain pt where "prev_valid xs i = Some pt" by blast
    thus ?thesis using None
      by (cases pt; cases "next_valid xs i") (auto simp: interpolate_at_def)
  next
    case False
    with \<open>j \<noteq> i\<close> have "i < j" by simp
    with mem have "(j, a) \<in> set (filter (\<lambda>(j, _). i < j) (valid_pts xs))" by simp
    hence "filter (\<lambda>(j, _). i < j) (valid_pts xs) \<noteq> []" by (metis empty_iff empty_set)
    hence "next_valid xs i \<noteq> None"
      by (cases "filter (\<lambda>(j, _). i < j) (valid_pts xs)") (simp_all add: next_valid_def)
    then obtain pt where "next_valid xs i = Some pt" by blast
    thus ?thesis using None
      by (cases pt; cases "prev_valid xs i") (auto simp: interpolate_at_def)
  qed
qed

lemma length_interpolate: "length (interpolate xs) = length xs"
  by (simp add: interpolate_def)

lemma interpolate_defined:
  assumes "j < length xs" "xs ! j \<noteq> None" "i < length xs"
  shows "interpolate xs ! i \<noteq> None"
  using assms interpolate_at_defined [of j xs _ i] by (auto simp: interpolate_def)

lemma shift1_nth:
  "length (shift1 xs) = length xs"
  "xs \<noteq> [] \<Longrightarrow> shift1 xs ! 0 = None"
  "0 < j \<Longrightarrow> j < length xs \<Longrightarrow> shift1 xs ! j = xs ! (j - 1)"
  by (auto simp: shift1_def nth_Cons' nth_butlast)


lemma fold_min_hd: "ts \<noteq> [] \<Longrightarrow> fold min ts (hd ts) = Min (set ts)" for ts :: "int list"
  by (cases ts) (simp_all add: Min.set_eq_fold [symmetric])

lemma fold_max_hd: "ts \<noteq> [] \<Longrightarrow> fold max ts (hd ts) = Max (set ts)" for ts :: "int list"
  by (cases ts) (simp_all add: Max.set_eq_fold [symmetric])

lemma n_bins_pos:
  assumes "ts \<noteq> []" "0 < freq"
  shows "0 < n_bins freq ts"
proof -
  have "Min (set ts) \<le> Max (set ts)" using assms(1) by simp
  hence "(Min (set ts) - origin_of ts) div freq \<le> (Max (set ts) - origin_of ts) div freq"
    using assms(2) by (intro zdiv_mono1) simp_all
  thus ?thesis
    using assms(1) by (simp add: n_bins_def Let_def slot_of_def fold_min_hd fold_max_hd)
qed

lemma length_resample_mean: "length (resample_mean freq s) = n_bins freq (map fst s)"
  by (simp add: resample_mean_def Let_def)

lemma resample_mean_label:
  "j < n_bins freq (map fst s) \<Longrightarrow> fst (resample_mean freq s ! j) = grid_label freq (map fst s) j"
  by (simp add: resample_mean_def Let_def)

lemma mean_defined: "vs \<noteq> [] \<Longrightarrow> mean vs \<noteq> None"
  by (simp add: mean_def)

lemma resample_mean_first:
  assumes "s \<noteq> []" "0 < freq"
  shows "fst (snd (resample_mean freq s ! 0)) \<noteq> None \<and> snd (snd (resample_mean freq s ! 0)) \<noteq> None"
proof -
  let ?ts = "map fst s"
  let ?origin = "origin_of ?ts"
  let ?lo = "slot_of ?origin freq (fold min ?ts (hd ?ts))"
  let ?members = "filter (\<lambda>(t, _, _). slot_of ?origin freq t = ?lo + int 0) s"
  have ne: "?ts \<noteq> []" using assms(1) by simp
  have "Min (set ?ts) \<in> set ?ts" using ne by (intro Min_in) simp_all
  then obtain e where e: "e \<in> set s" "fst e = Min (set ?ts)" by auto
  have "fold min ?ts (hd ?ts) = fst e" using e(2) fold_min_hd [OF ne] by simp
  hence "slot_of ?origin freq (fst e) = ?lo + int 0" by simp
  hence "e \<in> set ?members"
    using e(1) by (cases e) simp
  hence m: "?members \<noteq> []" by (metis empty_iff empty_set)
  have pos: "0 < n_bins freq ?ts" using n_bins_pos [OF ne assms(2)] .
  have "resample_mean freq s ! 0 =
          (grid_label freq ?ts 0, mean (map (\<lambda>(_, l, _). l) ?members), mean (map (\<lambda>(_, _, l). l) ?members))"
    using pos by (simp add: resample_mean_def Let_def)
  thus ?thesis using m by (simp add: mean_defined)
qed

lemma to_local_xy_defined:
  "fst (to_local_xy (Some a) (Some b) (Some c) (Some d)) \<noteq> None"
  "snd (to_local_xy (Some a) (Some b) (Some c) (Some d)) \<noteq> None"
  by (simp_all add: to_local_xy_def)

lemma group_rows_props:
  assumes s: "s \<noteq> []" and freq: "0 < freq_ns cfg"
    and c: "lon0 \<noteq> None" "lat0 \<noteq> None"
  shows "length (group_rows cfg lon0 lat0 sid s) = n_bins (freq_ns cfg) (map fst s)"
    and "j < n_bins (freq_ns cfg) (map fst s) \<Longrightarrow>
           r_id (group_rows cfg lon0 lat0 sid s ! j) = sid
         \<and> r_time (group_rows cfg lon0 lat0 sid s ! j) = Some (grid_label (freq_ns cfg) (map fst s) j)
         \<and> (has_prev (group_rows cfg lon0 lat0 sid s ! j) \<longleftrightarrow> 0 < j)"
proof -
  let ?grid = "resample_mean (freq_ns cfg) s"
  let ?n = "n_bins (freq_ns cfg) (map fst s)"
  let ?lons = "interpolate (map (\<lambda>(_, l, _). l) ?grid)"
  let ?lats = "interpolate (map (\<lambda>(_, _, l). l) ?grid)"
  let ?xys = "map (\<lambda>j. to_local_xy (?lons ! j) (?lats ! j) lon0 lat0) [0..<length ?grid]"
  have len: "length ?grid = ?n" by (rule length_resample_mean)
  show "length (group_rows cfg lon0 lat0 sid s) = ?n"
    by (simp add: group_rows_def Let_def len)
  have pos: "0 < ?n" using n_bins_pos [OF _ freq, of "map fst s"] s by simp
  note first = resample_mean_first [OF s freq]
  have l0: "map (\<lambda>(_, l, _). l) ?grid ! 0 \<noteq> None" "map (\<lambda>(_, _, l). l) ?grid ! 0 \<noteq> None"
    using first pos len by (simp_all add: split_beta)
  have lons: "?lons ! i \<noteq> None" if "i < ?n" for i
    using interpolate_defined [of 0 "map (\<lambda>(_, l, _). l) ?grid" i] l0(1) pos len that by simp
  have lats: "?lats ! i \<noteq> None" if "i < ?n" for i
    using interpolate_defined [of 0 "map (\<lambda>(_, _, l). l) ?grid" i] l0(2) pos len that by simp
  have llen: "length ?lons = ?n" "length ?lats = ?n"
    by (simp_all add: length_interpolate len)
  have xy: "fst (?xys ! i) \<noteq> None \<and> snd (?xys ! i) \<noteq> None" if "i < ?n" for i
  proof -
    from lons [OF that] lats [OF that] c obtain a b c' d where
      "?lons ! i = Some a" "?lats ! i = Some b" "lon0 = Some c'" "lat0 = Some d" by auto
    thus ?thesis using that len by (simp add: to_local_xy_defined)
  qed
  assume j: "j < ?n"
  let ?r = "group_rows cfg lon0 lat0 sid s ! j"
  have r1: "r_id ?r = sid" using j by (simp add: group_rows_def Let_def len)
  have r2: "r_time ?r = Some (grid_label (freq_ns cfg) (map fst s) j)"
    using j resample_mean_label [OF j] by (simp add: group_rows_def Let_def len)
  have f: "lon_prev ?r = shift1 ?lons ! j" "lat_prev ?r = shift1 ?lats ! j"
    "step_len_m ?r = haversine (shift1 ?lons ! j) (shift1 ?lats ! j) (?lons ! j) (?lats ! j)"
    "x_prev ?r = shift1 (map fst ?xys) ! j" "y_prev ?r = shift1 (map snd ?xys) ! j"
    using j by (simp_all add: group_rows_def Let_def len)
  have r3: "has_prev ?r \<longleftrightarrow> 0 < j"
  proof (cases "0 < j")
    case False
    hence "j = 0" by simp
    moreover have "?lons \<noteq> []" using llen pos by auto
    ultimately have "lon_prev ?r = None" using f(1) by (simp add: shift1_nth)
    thus ?thesis using False by (simp add: has_prev_def)
  next
    case True
    hence j1: "j - 1 < ?n" using j by simp
    have a: "shift1 ?lons ! j = ?lons ! (j - 1)" "shift1 ?lats ! j = ?lats ! (j - 1)"
      using True j llen by (simp_all add: shift1_nth)
    have b: "shift1 (map fst ?xys) ! j = fst (?xys ! (j - 1))"
      "shift1 (map snd ?xys) ! j = snd (?xys ! (j - 1))"
      using True j j1 len by (simp_all add: shift1_nth del: upt_Suc)
    from lons [OF j1] lats [OF j1] lons [OF j] lats [OF j] obtain p q u v where
      v: "?lons ! (j - 1) = Some p" "?lats ! (j - 1) = Some q" "?lons ! j = Some u" "?lats ! j = Some v"
      by auto
    have "step_len_m ?r \<noteq> None"
      unfolding f(3) a v by (rule haversine_defined)
    moreover have "lon_prev ?r \<noteq> None" "lat_prev ?r \<noteq> None"
      unfolding f a using v by simp_all
    moreover have "x_prev ?r \<noteq> None" "y_prev ?r \<noteq> None"
      unfolding f b using xy [OF j1] by simp_all
    ultimately show ?thesis using True by (simp add: has_prev_def)
  qed
  from r1 r2 r3 show "r_id ?r = sid
         \<and> r_time ?r = Some (grid_label (freq_ns cfg) (map fst s) j)
         \<and> (has_prev ?r \<longleftrightarrow> 0 < j)" by blast
qed

lemma filter_all_but_first:
  assumes "\<forall>j < length xs. P (xs ! j) \<longleftrightarrow> 0 < j"
  shows "filter P xs = tl xs"
proof (cases xs)
  case Nil
  then show ?thesis by simp
next
  case (Cons x rest)
  from assms Cons have "\<not> P x" by auto
  moreover have "P y" if "y \<in> set rest" for y
  proof -
    from that obtain k where "k < length rest" "rest ! k = y" by (auto simp: in_set_conv_nth)
    with assms [rule_format, of "Suc k"] Cons show ?thesis by simp
  qed
  ultimately show ?thesis using Cons by (simp add: filter_id_conv)
qed

lemma idx_update_fields:
  "r_id (r\<lparr>idx := i\<rparr>) = r_id r" "r_time (r\<lparr>idx := i\<rparr>) = r_time r"
  "has_prev (r\<lparr>idx := i\<rparr>) = has_prev r"
  by (simp_all add: has_prev_def)

lemma filter_map2_idx:
  assumes "length ns = length xs" "\<And>i r. Q (r\<lparr>idx := i\<rparr>) = Q r"
  shows "length (filter Q (map2 (\<lambda>i r. r\<lparr>idx := i\<rparr>) ns xs)) = length (filter Q xs)"
  using assms(1) by (induction ns xs rule: list_induct2) (simp_all add: assms(2))

lemma set_map2_idx:
  assumes "r \<in> set (map2 (\<lambda>i r. r\<lparr>idx := i\<rparr>) ns xs)"
  shows "\<exists>r' \<in> set xs. \<exists>i. r = r'\<lparr>idx := i\<rparr>"
  using assms by (auto dest: set_zip_rightD)

lemma filter_concat_one:
  assumes "distinct sids" "\<And>s'. s' \<noteq> sid \<Longrightarrow> filter Q (G s') = []"
  shows "filter Q (concat (map G sids)) = (if sid \<in> set sids then filter Q (G sid) else [])"
  using assms(1)
proof (induction sids)
  case Nil
  then show ?case by simp
next
  case (Cons a sids)
  hence d: "distinct sids" and a: "a \<notin> set sids" by simp_all
  show ?case
  proof (cases "a = sid")
    case True
    hence "sid \<notin> set sids" using a by simp
    with Cons.IH [OF d] True show ?thesis by simp
  next
    case False
    from assms(2) [OF False] Cons.IH [OF d] False show ?thesis by simp
  qed
qed

lemma median_defined: "vs \<noteq> [] \<Longrightarrow> median vs \<noteq> None"
proof -
  assume "vs \<noteq> []"
  hence n: "length (sort vs) \<noteq> 0" by simp
  show ?thesis
  proof (cases "odd (length (sort vs))")
    case True
    with n show ?thesis unfolding median_def Let_def by (simp only: if_False if_True) simp
  next
    case False
    with n show ?thesis unfolding median_def Let_def by (simp only: if_False) simp
  qed
qed

lemma track_of_empty_iff: "track_of g sid = [] \<longleftrightarrow> sid \<notin> set (map fst g)"
proof -
  have "length (track_of g sid) = length (filter (\<lambda>(i, _). i = sid) g)"
    by (simp add: track_of_def)
  hence "track_of g sid = [] \<longleftrightarrow> filter (\<lambda>(i, _). i = sid) g = []"
    by (simp only: length_0_conv [symmetric])
  also have "\<dots> \<longleftrightarrow> sid \<notin> set (map fst g)"
    by (force simp: filter_empty_conv)
  finally show ?thesis .
qed

text \<open>
  Every row that \<open>regularize\<close> returns has a finite heading: the heading is computed from
  the same four coordinates as the step length, which line 83 requires.
\<close>

lemma group_rows_kinematics:
  assumes "r \<in> set (group_rows cfg lon0 lat0 sid s)"
  shows "step_len_m r = haversine (lon_prev r) (lat_prev r) (lon r) (lat r)
       \<and> heading_rad r = bearing (lon_prev r) (lat_prev r) (lon r) (lat r)"
proof -
  from assms obtain j where j: "j < length (resample_mean (freq_ns cfg) s)"
    and r: "r = group_rows cfg lon0 lat0 sid s ! j"
    by (auto simp: in_set_conv_nth group_rows_def Let_def)
  show ?thesis unfolding r using j by (simp add: group_rows_def Let_def)
qed

lemma haversine_bearing_defined:
  "haversine a b c d \<noteq> None \<Longrightarrow> bearing a b c d \<noteq> None"
  by (cases a; cases b; cases c; cases d) (simp_all add: haversine_def bearing_def Let_def)

lemma regularize_heading_finite:
  assumes ok: "regularize df cfg = Inr reg" and r: "r \<in> set reg"
  shows "isfinite (heading_rad r)"
proof -
  let ?g = "clean_fixes df"
  let ?G = "\<lambda>sid. group_rows cfg (median (map (\<lambda>(_, _, lo, _). lo) ?g))
                 (median (map (\<lambda>(_, _, _, la). la) ?g)) sid (track_of ?g sid)"
  let ?all = "concat (map ?G (sort (remdups (map fst ?g))))"
  from ok have reg: "reg = filter has_prev (map2 (\<lambda>i r. r\<lparr>idx := i\<rparr>) [0..<length ?all] ?all)"
    by (auto simp: regularize_def Let_def split: if_splits)
  from r reg have hp: "has_prev r"
    and "r \<in> set (map2 (\<lambda>i r. r\<lparr>idx := i\<rparr>) [0..<length ?all] ?all)" by simp_all
  from set_map2_idx [OF this(2)] obtain r' i where r': "r' \<in> set ?all" "r = r'\<lparr>idx := i\<rparr>"
    by blast
  from r'(1) obtain sid where "r' \<in> set (?G sid)" by auto
  from group_rows_kinematics [OF this]
  have k: "step_len_m r' = haversine (lon_prev r') (lat_prev r') (lon r') (lat r')"
    "heading_rad r' = bearing (lon_prev r') (lat_prev r') (lon r') (lat r')" by simp_all
  from hp r'(2) have "step_len_m r' \<noteq> None" by (simp add: has_prev_def)
  with k have "heading_rad r' \<noteq> None" by (simp add: haversine_bearing_defined)
  thus ?thesis using r'(2) by (simp add: isfinite_def)
qed

text \<open>
  Claim C5, as the code has it.  When \<open>regularize\<close> returns a table, every row of it has a
  complete previous step (previous longitude and latitude, step length, previous planar
  position).  Of the grid rows of an individual, one per bin from the bin of its first fix
  to the bin of its last, exactly the first is dropped: the individual has one output row
  less than it has bins, each at the label of a bin after the first.  An individual whose
  fixes all fall into one bin has no output row; an individual with two fixes in different
  bins has output rows.
\<close>

theorem regularize_rows:
  assumes ok: "regularize df cfg = Inr reg"
  shows "(\<forall>r \<in> set reg. has_prev r)
     \<and> (\<forall>sid. length (filter (\<lambda>r. r_id r = sid) reg)
              = n_bins (freq_ns cfg) (map fst (track_of (clean_fixes df) sid)) - 1)
     \<and> (\<forall>r \<in> set reg. \<exists>j. 0 < j
            \<and> j < n_bins (freq_ns cfg) (map fst (track_of (clean_fixes df) (r_id r)))
            \<and> r_time r = Some (grid_label (freq_ns cfg) (map fst (track_of (clean_fixes df) (r_id r))) j))"
proof -
  let ?g = "clean_fixes df"
  let ?lon0 = "median (map (\<lambda>(_, _, lo, _). lo) ?g)"
  let ?lat0 = "median (map (\<lambda>(_, _, _, la). la) ?g)"
  let ?sids = "sort (remdups (map fst ?g))"
  let ?G = "\<lambda>sid. group_rows cfg ?lon0 ?lat0 sid (track_of ?g sid)"
  let ?all = "concat (map ?G ?sids)"
  let ?reg = "map2 (\<lambda>i r. r\<lparr>idx := i\<rparr>) [0..<length ?all] ?all"
  let ?n = "\<lambda>sid. n_bins (freq_ns cfg) (map fst (track_of ?g sid))"
  from ok have g: "?g \<noteq> []" and dt: "0 < dt_minutes cfg" and reg: "reg = filter has_prev ?reg"
    by (auto simp: regularize_def Let_def split: if_splits)
  have freq: "0 < freq_ns cfg" using dt by (simp add: freq_ns_def)
  have c: "?lon0 \<noteq> None" "?lat0 \<noteq> None" using g by (simp_all add: median_defined)
  have sids: "distinct ?sids" "set ?sids = set (map fst ?g)" by simp_all
  have tr: "track_of ?g sid \<noteq> []" if "sid \<in> set ?sids" for sid
    using that track_of_empty_iff [of ?g sid] by simp
  note props = group_rows_props [OF tr freq c]
  have A: "\<forall>r \<in> set reg. has_prev r" by (simp add: reg)
  have B: "length (filter (\<lambda>r. r_id r = sid) reg) = ?n sid - 1" for sid
  proof -
    let ?Q = "\<lambda>r. has_prev r \<and> r_id r = sid"
    have "length (filter (\<lambda>r. r_id r = sid) reg) = length (filter ?Q ?reg)"
      by (simp add: reg conj_commute)
    also have "\<dots> = length (filter ?Q ?all)"
      by (rule filter_map2_idx) (simp_all add: idx_update_fields)
    also have "filter ?Q ?all = (if sid \<in> set ?sids then filter ?Q (?G sid) else [])"
    proof (rule filter_concat_one [OF sids(1)])
      fix s' assume ne: "s' \<noteq> sid"
      show "filter ?Q (?G s') = []"
      proof (cases "s' \<in> set ?sids")
        case True
        have "r_id r = s'" if "r \<in> set (?G s')" for r
        proof -
          from that obtain j where "j < length (?G s')" "?G s' ! j = r"
            by (auto simp: in_set_conv_nth)
          with props(1) [OF True] props(2) [OF True, of j s'] show ?thesis by simp
        qed
        with ne show ?thesis by (auto simp: filter_empty_conv)
      next
        case False
        hence "track_of ?g s' = []" using track_of_empty_iff [of ?g s'] by simp
        hence "?G s' = []"
          by (simp add: group_rows_def resample_mean_def n_bins_def Let_def)
        thus ?thesis by simp
      qed
    qed
    also have "length (if sid \<in> set ?sids then filter ?Q (?G sid) else []) = ?n sid - 1"
    proof (cases "sid \<in> set ?sids")
      case True
      have "filter ?Q (?G sid) = tl (?G sid)"
      proof (rule filter_all_but_first, intro allI impI)
        fix j assume "j < length (?G sid)"
        hence "j < ?n sid" using props(1) [OF True] by simp
        from props(2) [OF True this, of sid]
        show "(has_prev (?G sid ! j) \<and> r_id (?G sid ! j) = sid) \<longleftrightarrow> 0 < j" by simp
      qed
      thus ?thesis using True props(1) [OF True, of sid] by simp
    next
      case False
      hence "track_of ?g sid = []" using track_of_empty_iff [of ?g sid] by simp
      thus ?thesis using False by (simp add: n_bins_def)
    qed
    finally show ?thesis .
  qed
  have C: "\<exists>j. 0 < j \<and> j < ?n (r_id r)
             \<and> r_time r = Some (grid_label (freq_ns cfg) (map fst (track_of ?g (r_id r))) j)"
    if "r \<in> set reg" for r
  proof -
    from that have hp: "has_prev r" and "r \<in> set ?reg" by (simp_all add: reg)
    from set_map2_idx [OF this(2)] obtain r' i where r': "r' \<in> set ?all" "r = r'\<lparr>idx := i\<rparr>"
      by blast
    from r'(1) obtain sid where sid: "sid \<in> set ?sids" "r' \<in> set (?G sid)" by auto
    from sid(2) obtain j where j: "j < length (?G sid)" "?G sid ! j = r'"
      by (auto simp: in_set_conv_nth)
    hence jn: "j < ?n sid" using props(1) [OF sid(1)] by simp
    from props(2) [OF sid(1) jn, of sid] j(2) r'(2) hp
    have "r_id r = sid" "0 < j"
      "r_time r = Some (grid_label (freq_ns cfg) (map fst (track_of ?g sid)) j)"
      by (simp_all add: idx_update_fields)
    with jn show ?thesis by blast
  qed
  from A B C show ?thesis by blast
qed

lemma ex_clean: "clean_fixes ex_fixes = [(1, 0, 0, 0), (1, 600000000000, 0, 0), (2, 0, 0, 0), (2, 60000000000, 0, 0)]"
  by (simp add: clean_fixes_def ex_fixes_def ex_fix_def)

lemma ex_grids:
  "resample_mean (freq_ns ex_cfg) [(0, 0, 0), (600000000000, 0, 0)] = [(0, Some 0, Some 0), (600000000000, Some 0, Some 0)]"
  "resample_mean (freq_ns ex_cfg) [(0, 0, 0), (60000000000, 0, 0)] = [(0, Some 0, Some 0)]"
  by (simp_all add: resample_mean_def grid_label_def freq_ns_def ex_cfg_def n_bins_def origin_of_def slot_of_def
        day_ns_def Let_def mean_def numeral_2_eq_2)

lemma ex_interp:
  "interpolate [Some 0, Some 0] = [Some 0, Some 0]"
  "interpolate [Some 0] = [Some 0]"
  by (simp_all add: interpolate_def interpolate_at_def numeral_2_eq_2)

lemma ex_G1:
  "group_rows ex_cfg (Some 0) (Some 0) (Suc 0) [(0, 0, 0), (600000000000, 0, 0)]
   = [\<lparr>idx = 0, r_id = 1, r_time = Some 0, lon = Some 0, lat = Some 0,
        lon_prev = None, lat_prev = None, step_len_m = None, heading_rad = None,
        heading_prev_rad = None, turn_rad = None, speed_mps = None,
        x_m = Some 0, y_m = Some 0, x_prev = None, y_prev = None\<rparr>,
      \<lparr>idx = 0, r_id = 1, r_time = Some 600000000000, lon = Some 0, lat = Some 0,
        lon_prev = Some 0, lat_prev = Some 0, step_len_m = Some 0, heading_rad = Some 0,
        heading_prev_rad = None, turn_rad = None, speed_mps = Some 0,
        x_m = Some 0, y_m = Some 0, x_prev = Some 0, y_prev = Some 0\<rparr>]"
  by (simp add: group_rows_def ex_grids ex_interp Let_def shift1_def numeral_2_eq_2
       haversine_def bearing_def to_local_xy_def radians_def turn_angle_def arctan2_def pymod_def)


lemma ex_G2:
  "group_rows ex_cfg (Some 0) (Some 0) 2 [(0, 0, 0), (60000000000, 0, 0)]
   = [\<lparr>idx = 0, r_id = 2, r_time = Some 0, lon = Some 0, lat = Some 0,
        lon_prev = None, lat_prev = None, step_len_m = None, heading_rad = None,
        heading_prev_rad = None, turn_rad = None, speed_mps = None,
        x_m = Some 0, y_m = Some 0, x_prev = None, y_prev = None\<rparr>]"
  by (simp add: group_rows_def ex_grids ex_interp Let_def shift1_def
       haversine_def bearing_def to_local_xy_def radians_def turn_angle_def)

lemma ex_tracks':
  "track_of [(Suc 0, 0, 0, 0), (Suc 0, 600000000000, 0, 0), (2, 0, 0, 0), (2, 60000000000, 0, 0)] (Suc 0) = [(0, 0, 0), (600000000000, 0, 0)]"
  "track_of [(Suc 0, 0, 0, 0), (Suc 0, 600000000000, 0, 0), (2, 0, 0, 0), (2, 60000000000, 0, 0)] 2 = [(0, 0, 0), (60000000000, 0, 0)]"
  by (simp_all add: track_of_def)

lemma ex_median: "median [0, 0, 0, 0] = Some 0"
  by (simp add: median_def)

lemma ex_dt: "\<not> dt_minutes ex_cfg \<le> 0"
  by (simp add: ex_cfg_def)

theorem regularize_rows_witness:
  "regularize ex_fixes ex_cfg = Inr (projr (regularize ex_fixes ex_cfg))
   \<and> n_bins (freq_ns ex_cfg) (map fst (track_of (clean_fixes ex_fixes) 2)) = 1
   \<and> length (filter (\<lambda>r. r_id r = 2) (projr (regularize ex_fixes ex_cfg))) = 0
   \<and> n_bins (freq_ns ex_cfg) (map fst (track_of (clean_fixes ex_fixes) 1)) = 2
   \<and> length (filter (\<lambda>r. r_id r = 1) (projr (regularize ex_fixes ex_cfg))) = 1"
proof -
  let ?b = "regularize ex_fixes ex_cfg"
  have "map_sum id (map r_id) ?b = Inr [1]"
    by (simp add: regularize_def ex_clean ex_tracks' ex_median ex_dt ex_G1 ex_G2 has_prev_def Let_def)
  hence ok: "?b = Inr (projr ?b)" by (cases ?b) simp_all
  have n2: "n_bins (freq_ns ex_cfg) (map fst (track_of (clean_fixes ex_fixes) 2)) = 1"
    by (simp add: ex_clean ex_tracks' n_bins_def origin_of_def slot_of_def day_ns_def freq_ns_def
          ex_cfg_def Let_def)
  have n1: "n_bins (freq_ns ex_cfg) (map fst (track_of (clean_fixes ex_fixes) 1)) = 2"
    by (simp add: ex_clean ex_tracks' n_bins_def origin_of_def slot_of_def day_ns_def freq_ns_def
          ex_cfg_def Let_def)
  from regularize_rows [OF ok] have
    "length (filter (\<lambda>r. r_id r = 2) (projr ?b))
       = n_bins (freq_ns ex_cfg) (map fst (track_of (clean_fixes ex_fixes) 2)) - 1"
    "length (filter (\<lambda>r. r_id r = 1) (projr ?b))
       = n_bins (freq_ns ex_cfg) (map fst (track_of (clean_fixes ex_fixes) 1)) - 1"
    by blast+
  with ok n1 n2 show ?thesis by simp
qed

theorem regularize_two_fixes_counterexample:
  "map f_id ex_fixes = [Some 1, Some 1, Some 2, Some 2]
   \<and> map_sum id (map r_id) (regularize ex_fixes ex_cfg) = Inr [1]
   \<and> map_sum id (map r_time) (regularize ex_fixes ex_cfg) = Inr [Some 600000000000]"
proof -
  have "map f_id ex_fixes = [Some 1, Some 1, Some 2, Some 2]"
    by (simp add: ex_fixes_def ex_fix_def)
  moreover have "map_sum id (map r_id) (regularize ex_fixes ex_cfg) = Inr [1]"
    by (simp add: regularize_def ex_clean ex_tracks' ex_median ex_dt ex_G1 ex_G2 has_prev_def Let_def)
  moreover have "map_sum id (map r_time) (regularize ex_fixes ex_cfg) = Inr [Some 600000000000]"
    by (simp add: regularize_def ex_clean ex_tracks' ex_median ex_dt ex_G1 ex_G2 has_prev_def Let_def)
  ultimately show ?thesis by simp
qed

end
